theory Spec2Isabelle
  imports Main "HOL-Library.Word"
begin

section \<open>The WebSocket driver of the player (src/driver/websocket.js)\<close>

text \<open>
  The driver is a JavaScript closure: \<^verbatim>\<open>websocket(options, callbacks)\<close> declares the
  variables \<^verbatim>\<open>socket\<close>, \<^verbatim>\<open>buf\<close>, \<^verbatim>\<open>clock\<close>, \<^verbatim>\<open>reconnectAttempt\<close>,
  \<^verbatim>\<open>successfulConnectionTimeout\<close> and \<^verbatim>\<open>stop\<close>, and a set of functions that read and
  write them. The embedding makes the closure variables a record, every function a state
  transformer, every exception a value, and every call that leaves the module (logger,
  \<^verbatim>\<open>setState\<close>, \<^verbatim>\<open>reset\<close>, the Buffer, the socket, the timers) an entry of a trace.
\<close>

subsection \<open>JavaScript values\<close>

type_synonym byte = "8 word"

text \<open>
  A JavaScript number is kept by the way the code obtained it: an exact integer (a typed-array
  element, a \<^verbatim>\<open>getUint16\<close>/\<^verbatim>\<open>getUint32\<close> result, a \<^verbatim>\<open>parseInt\<close> result, an integer JSON
  literal), the value of an IEEE-754 binary32 given by its bit pattern (\<^verbatim>\<open>getFloat32\<close>), or a
  binary64 given by its bit pattern. The driver never does arithmetic on the last two.
\<close>

datatype jsnum = NumInt int | NumF32 "32 word" | NumF64 "64 word"

datatype jsval =
    JUndefined
  | JNull
  | JBool bool
  | JNum jsnum
  | JStr string
  | JArr "jsval list"
  | JObj "(string \<times> jsval) list"

datatype error = SyntaxError | TypeError | RangeError

text \<open>\<^verbatim>\<open>a ?? b\<close>: the right operand is taken when the left one is null or undefined.\<close>

definition nullish :: "jsval \<Rightarrow> jsval \<Rightarrow> jsval" where
  "nullish a b = (if a = JUndefined \<or> a = JNull then b else a)"

text \<open>
  \<^verbatim>\<open>e.k\<close> for the property names the driver reads (\<^verbatim>\<open>cols\<close>, \<^verbatim>\<open>width\<close>, \<^verbatim>\<open>rows\<close>,
  \<^verbatim>\<open>height\<close>, \<^verbatim>\<open>time\<close>, \<^verbatim>\<open>init\<close>, \<^verbatim>\<open>status\<close>, \<^verbatim>\<open>state\<close>): an own property of an
  object, undefined on booleans, numbers, strings and arrays (no prototype defines these
  names), and a TypeError on null and undefined.
\<close>

fun get_prop :: "jsval \<Rightarrow> string \<Rightarrow> jsval option" where
  "get_prop JUndefined k = None"
| "get_prop JNull k = None"
| "get_prop (JObj kvs) k = (case map_of kvs k of None \<Rightarrow> Some JUndefined | Some v \<Rightarrow> Some v)"
| "get_prop v k = Some JUndefined"

text \<open>\<^verbatim>\<open>Array.isArray(e)\<close> and \<^verbatim>\<open>typeof t === 'number'\<close>.\<close>

fun isArray :: "jsval \<Rightarrow> bool" where
  "isArray (JArr xs) = True"
| "isArray v = False"

fun is_number :: "jsval \<Rightarrow> bool" where
  "is_number (JNum n) = True"
| "is_number v = False"

subsection \<open>The reconnect delay\<close>

text \<open>
  \<^verbatim>\<open>Math.min(500 * Math.pow(2, attempt), 5000)\<close>. On a natural attempt count every
  intermediate value is an integer that binary64 holds exactly, until \<^verbatim>\<open>Math.pow\<close> overflows
  to Infinity, where the minimum is 5000 as well: the function on \<open>nat\<close> is the function of
  the code.
\<close>

definition exponentialDelay :: "nat \<Rightarrow> nat" where
  "exponentialDelay attempt = min (500 * 2 ^ attempt) 5000"

subsection \<open>Collaborators and the state of the closure\<close>

datatype level = Debug | Info | Warn | Error

text \<open>The log messages, with the values the template strings interpolate.\<close>

datatype logmsg =
    ActivatingJson
  | ActivatingALiS
  | CompressionNone
  | UnsupportedCompression "byte option"
  | UnsupportedVersion "byte option"
  | ActivatingRaw
  | UnknownFrameType "byte option"
  | StreamReset jsval jsval jsval
  | StreamOffline
  | Opened
  | Closed
  | UncleanClose nat

datatype conn_state = Loading | Playing | Offline | Stopped

datatype detail = ReasonEnded

datatype timer_callback = ResetReconnectAttempt | Connect

text \<open>
  Every call that leaves the module, in the order the code makes it. \<open>GetBuffer\<close> carries
  the buffer time, the base stream time and the minimum frame time handed to the factory
  (the sink \<^verbatim>\<open>feed\<close> and the time callback are the same in every call).
\<close>

datatype effect =
    Log level logmsg
  | SetState conn_state "detail option"
  | Reset jsval jsval jsval
  | GetBuffer jsval jsval jsval
  | BufStop
  | PushEvent jsval
  | PushText string
  | NewWebSocket string
  | SocketCloseCall
  | SetTimeout nat timer_callback nat
  | ClearTimeout "nat option"

text \<open>
  The handler bound to \<^verbatim>\<open>socket.onmessage\<close>, and the socket as the driver and the
  WebSocket interface see it (\<^verbatim>\<open>readyState\<close> is the attribute of the platform's socket).
\<close>

datatype handler = DetectProtocol | HandleJsonMessage | HandleStreamMessage | HandleRawTextMessage

datatype ready_state = CONNECTING | OPEN | CLOSING | CLOSED

record websocket =
  readyState :: ready_state
  onmessage :: handler

text \<open>The Buffer the factory returned: its base stream time, and whether it was stopped.\<close>

record buffer =
  baseStreamTime :: jsval
  stopped :: bool

text \<open>
  Modelled from the spec: the Clock of \<^verbatim>\<open>../clock\<close>, which is not among the sources. The
  spec gives it as a mutable virtual time that does not advance by itself, set by
  \<^verbatim>\<open>setTime\<close> and read by \<^verbatim>\<open>getTime\<close>; the NullClock reports an absent time. The time
  a fresh Clock holds before any \<^verbatim>\<open>setTime\<close> is a parameter (\<open>clock_initial\<close> below).
\<close>

datatype clock = NullClock | Clock jsval

fun setTime :: "jsval \<Rightarrow> clock \<Rightarrow> clock" where
  "setTime t NullClock = NullClock"
| "setTime t (Clock u) = Clock t"

fun getTime :: "clock \<Rightarrow> jsval" where
  "getTime NullClock = JUndefined"
| "getTime (Clock t) = t"

text \<open>
  The options of the constructor (an option the caller leaves out is undefined, \<open>None\<close>
  for the delay function) and the primitives of the platform the code calls:
  \<^verbatim>\<open>JSON.parse\<close> (\<open>None\<close> when it throws a SyntaxError) and \<^verbatim>\<open>TextDecoder.decode\<close>.
\<close>

record env =
  url :: string
  bufferTime :: jsval
  reconnectDelay :: "(nat \<Rightarrow> nat) option"
  minFrameTime :: jsval
  JSON_parse :: "string \<Rightarrow> jsval option"
  utf_decode :: "byte list \<Rightarrow> string"
  clock_initial :: jsval

record state =
  socket :: "websocket option"
  buf :: "buffer option"
  clock :: clock
  reconnectAttempt :: nat
  successfulConnectionTimeout :: "nat option"
  stop :: bool
  timers :: "(nat \<times> timer_callback \<times> nat) list"
  next_timer :: nat
  effects :: "effect list"

text \<open>The state right after \<^verbatim>\<open>websocket(...)\<close> returned the driver.\<close>

definition websocket_init :: state where
  "websocket_init = \<lparr> socket = None, buf = None, clock = NullClock, reconnectAttempt = 0,
     successfulConnectionTimeout = None, stop = False, timers = [], next_timer = 0,
     effects = [] \<rparr>"

definition emit :: "effect \<Rightarrow> state \<Rightarrow> state" where
  "emit e s = s\<lparr> effects := effects s @ [e] \<rparr>"

definition logger :: "level \<Rightarrow> logmsg \<Rightarrow> state \<Rightarrow> state" where
  "logger l m s = emit (Log l m) s"

text \<open>
  \<^verbatim>\<open>setTimeout(cb, delay)\<close> registers a pending timer and returns its id;
  \<^verbatim>\<open>clearTimeout(id)\<close> removes it (and does nothing for undefined or for a timer that is
  no longer pending).
\<close>

definition setTimeout :: "timer_callback \<Rightarrow> nat \<Rightarrow> state \<Rightarrow> nat \<times> state" where
  "setTimeout cb delay s =
     (next_timer s,
      emit (SetTimeout (next_timer s) cb delay)
        (s\<lparr> timers := timers s @ [(next_timer s, cb, delay)],
            next_timer := Suc (next_timer s) \<rparr>))"

definition clearTimeout :: "nat option \<Rightarrow> state \<Rightarrow> state" where
  "clearTimeout i s =
     emit (ClearTimeout i)
       (case i of None \<Rightarrow> s
        | Some n \<Rightarrow> s\<lparr> timers := filter (\<lambda>t. fst t \<noteq> n) (timers s) \<rparr>)"

text \<open>
  \<^verbatim>\<open>socket.close()\<close>: a socket that is connecting or open starts closing; on a closing or
  closed socket the call does nothing.
\<close>

definition ws_close :: "websocket \<Rightarrow> websocket" where
  "ws_close w =
     (if readyState w = CONNECTING \<or> readyState w = OPEN then w\<lparr> readyState := CLOSING \<rparr> else w)"


subsection \<open>Typed arrays and views\<close>

text \<open>
  \<^verbatim>\<open>arr[i]\<close> on a \<^verbatim>\<open>Uint8Array\<close> is undefined past the end; the \<^verbatim>\<open>DataView\<close> getters, called
  with \<^verbatim>\<open>littleEndian = true\<close>, throw a RangeError when the field does not fit;
  \<^verbatim>\<open>new Uint8Array(buffer, off, len)\<close> throws a RangeError when \<open>off + len\<close> exceeds the byte
  length; \<^verbatim>\<open>array.slice(a, b)\<close> clamps both ends.
\<close>

definition at :: "byte list \<Rightarrow> nat \<Rightarrow> byte option" where
  "at arr i = (if i < length arr then Some (arr ! i) else None)"

definition getUint8 :: "byte list \<Rightarrow> nat \<Rightarrow> nat option" where
  "getUint8 b off = (if off + 1 \<le> length b then Some (unat (b ! off)) else None)"

definition getUint16 :: "byte list \<Rightarrow> nat \<Rightarrow> nat option" where
  "getUint16 b off =
     (if off + 2 \<le> length b then Some (unat (b ! off) + 256 * unat (b ! (off + 1))) else None)"

definition getUint32 :: "byte list \<Rightarrow> nat \<Rightarrow> nat option" where
  "getUint32 b off =
     (if off + 4 \<le> length b
      then Some (unat (b ! off) + 256 * unat (b ! (off + 1)) + 65536 * unat (b ! (off + 2))
                 + 16777216 * unat (b ! (off + 3)))
      else None)"

definition getFloat32 :: "byte list \<Rightarrow> nat \<Rightarrow> 32 word option" where
  "getFloat32 b off = map_option of_nat (getUint32 b off)"

definition new_Uint8Array :: "byte list \<Rightarrow> nat \<Rightarrow> nat \<Rightarrow> byte list option" where
  "new_Uint8Array b off len = (if off + len \<le> length b then Some (take len (drop off b)) else None)"

definition slice :: "byte list \<Rightarrow> nat \<Rightarrow> nat \<Rightarrow> byte list" where
  "slice arr a b = take (b - a) (drop a arr)"

subsection \<open>Sniffing the terminal size from raw text\<close>

text \<open>
  \<^verbatim>\<open>text.match(/\x1b\[8;(\d+);(\d+)t/)\<close>: the leftmost position where the pattern matches.
  Each \<^verbatim>\<open>\d+\<close> is followed by a character that is no digit, so only the longest run of
  digits can match. \<^verbatim>\<open>parseInt(m, 10)\<close> of a run of digits is its decimal value (exact
  here; the code's binary64 rounds above \<open>2^53\<close>).
\<close>

definition is_digit :: "char \<Rightarrow> bool" where
  "is_digit c = (c \<in> set ''0123456789'')"

definition parseInt :: "string \<Rightarrow> nat" where
  "parseInt ds = fold (\<lambda>c n. 10 * n + (of_char c - 48)) ds 0"

definition resize_seq_at :: "string \<Rightarrow> (nat \<times> nat) option" where
  "resize_seq_at t =
     (if take 4 t = [CHR 0x1B, CHR ''['', CHR ''8'', CHR '';''] then
        (let r1 = drop 4 t; d1 = takeWhile is_digit r1; r2 = dropWhile is_digit r1 in
         if d1 \<noteq> [] \<and> take 1 r2 = '';'' then
           (let r3 = drop 1 r2; d2 = takeWhile is_digit r3; r4 = dropWhile is_digit r3 in
            if d2 \<noteq> [] \<and> take 1 r4 = ''t'' then Some (parseInt d2, parseInt d1) else None)
         else None)
      else None)"

fun sizeFromResizeSeq :: "string \<Rightarrow> (nat \<times> nat) option" where
  "sizeFromResizeSeq [] = None"
| "sizeFromResizeSeq (c # cs) =
     (case resize_seq_at (c # cs) of
        Some sz \<Rightarrow> Some sz
      | None \<Rightarrow> sizeFromResizeSeq cs)"

text \<open>
  \<^verbatim>\<open>text.match(/\[.*COLUMNS="(\d{1,3})" LINES="(\d{1,3})".*\]/)\<close>. The dot matches no
  line terminator (of the four, only line feed and carriage return are characters of a
  \<open>string\<close>), so a match lies within one line. From the leftmost opening bracket that has
  a match, the greedy \<^verbatim>\<open>.*\<close> gives up characters from the end of the line, so the
  groups come from the last place of the line where the rest of the pattern matches: a run
  of one to three digits closed by a quote, twice, and a closing bracket later in the line.
\<close>

definition line_terminator :: "char \<Rightarrow> bool" where
  "line_terminator c = (c = CHR 0x0A \<or> c = CHR 0x0D)"

definition script_size_at :: "string \<Rightarrow> (nat \<times> nat) option" where
  \<open>script_size_at t =
     (if take 9 t = ''COLUMNS="'' then
        (let r1 = drop 9 t; d1 = takeWhile is_digit r1; r2 = dropWhile is_digit r1 in
         if 1 \<le> length d1 \<and> length d1 \<le> 3 \<and> take 9 r2 = ''" LINES="'' then
           (let r3 = drop 9 r2; d2 = takeWhile is_digit r3; r4 = dropWhile is_digit r3 in
            if 1 \<le> length d2 \<and> length d2 \<le> 3 \<and> take 1 r4 = ''"'' \<and> CHR '']'' \<in> set (drop 1 r4)
            then Some (parseInt d1, parseInt d2) else None)
         else None)
      else None)\<close>

fun last_script_size :: "string \<Rightarrow> (nat \<times> nat) option" where
  "last_script_size [] = None"
| "last_script_size (c # cs) =
     (case last_script_size cs of
        Some sz \<Rightarrow> Some sz
      | None \<Rightarrow> script_size_at (c # cs))"

fun sizeFromScriptStartMessage :: "string \<Rightarrow> (nat \<times> nat) option" where
  "sizeFromScriptStartMessage [] = None"
| "sizeFromScriptStartMessage (c # cs) =
     (if c = CHR ''[''
      then (case last_script_size (takeWhile (\<lambda>x. \<not> line_terminator x) cs) of
              Some sz \<Rightarrow> Some sz
            | None \<Rightarrow> sizeFromScriptStartMessage cs)
      else sizeFromScriptStartMessage cs)"


subsection \<open>The functions of the closure\<close>

text \<open>
  A function that can throw returns \<open>Inl (e, s)\<close>, the exception together with the state at
  the throw (what the function changed before it threw stays changed), or \<open>Inr s\<close>.
\<close>

type_synonym outcome = "(error \<times> state) + state"

definition and_then :: "outcome \<Rightarrow> (state \<Rightarrow> outcome) \<Rightarrow> outcome" where
  "and_then r f = (case r of Inl e \<Rightarrow> Inl e | Inr s \<Rightarrow> f s)"

text \<open>The defaults of the destructured options: \<^verbatim>\<open>bufferTime = 0.1\<close> (its binary64 bit
  pattern) and \<^verbatim>\<open>reconnectDelay = exponentialDelay\<close>.\<close>

definition the_bufferTime :: "env \<Rightarrow> jsval" where
  "the_bufferTime E =
     (if bufferTime E = JUndefined then JNum (NumF64 0x3FB999999999999A) else bufferTime E)"

definition the_reconnectDelay :: "env \<Rightarrow> nat \<Rightarrow> nat" where
  "the_reconnectDelay E = (case reconnectDelay E of None \<Rightarrow> exponentialDelay | Some f \<Rightarrow> f)"

text \<open>\<^verbatim>\<open>socket.onmessage = h\<close> and \<^verbatim>\<open>socket.close()\<close>; both throw when \<^verbatim>\<open>socket\<close> is
  undefined.\<close>

definition set_onmessage :: "handler \<Rightarrow> state \<Rightarrow> outcome" where
  "set_onmessage h s =
     (case socket s of
        None \<Rightarrow> Inl (TypeError, s)
      | Some w \<Rightarrow> Inr (s\<lparr> socket := Some (w\<lparr> onmessage := h \<rparr>) \<rparr>))"

definition socket_close :: "state \<Rightarrow> outcome" where
  "socket_close s =
     (case socket s of
        None \<Rightarrow> Inl (TypeError, s)
      | Some w \<Rightarrow> Inr (emit SocketCloseCall (s\<lparr> socket := Some (ws_close w) \<rparr>)))"

text \<open>\<^verbatim>\<open>buf.stop()\<close>, \<^verbatim>\<open>buf.pushEvent(e)\<close> and \<^verbatim>\<open>buf.pushText(t)\<close>.\<close>

definition buf_stop :: "buffer \<Rightarrow> state \<Rightarrow> state" where
  "buf_stop b s = emit BufStop (s\<lparr> buf := Some (b\<lparr> stopped := True \<rparr>) \<rparr>)"

definition pushEvent :: "jsval \<Rightarrow> state \<Rightarrow> outcome" where
  "pushEvent e s = (case buf s of None \<Rightarrow> Inl (TypeError, s) | Some b \<Rightarrow> Inr (emit (PushEvent e) s))"

definition pushText :: "string \<Rightarrow> state \<Rightarrow> outcome" where
  "pushText t s = (case buf s of None \<Rightarrow> Inl (TypeError, s) | Some b \<Rightarrow> Inr (emit (PushText t) s))"

definition initBuffer :: "env \<Rightarrow> jsval \<Rightarrow> state \<Rightarrow> state" where
  "initBuffer E base s =
     (let s1 = (case buf s of None \<Rightarrow> s | Some b \<Rightarrow> buf_stop b s) in
      emit (GetBuffer (the_bufferTime E) base (minFrameTime E))
        (s1\<lparr> buf := Some \<lparr> baseStreamTime = base, stopped = False \<rparr> \<rparr>))"

definition handleResetMessage :: "env \<Rightarrow> jsval \<Rightarrow> jsval \<Rightarrow> jsval \<Rightarrow> jsval \<Rightarrow> state \<Rightarrow> state" where
  "handleResetMessage E cols rows time init s =
     (let s1 = logger Debug (StreamReset cols rows time) s;
          s2 = emit (SetState Playing None) s1;
          s3 = initBuffer E time s2;
          s4 = emit (Reset cols rows init) s3;
          s5 = s4\<lparr> clock := Clock (clock_initial E) \<rparr>
      in if is_number time then s5\<lparr> clock := setTime time (clock s5) \<rparr> else s5)"

definition handleOfflineMessage :: "state \<Rightarrow> state" where
  "handleOfflineMessage s =
     (let s1 = logger Info StreamOffline s;
          s2 = emit (SetState Offline None) s1
      in s2\<lparr> clock := NullClock \<rparr>)"

datatype msgdata = Text string | Binary "byte list"

text \<open>\<^verbatim>\<open>e.k\<close> once \<open>e\<close> is known to be neither null nor undefined.\<close>

definition field :: "jsval \<Rightarrow> string \<Rightarrow> jsval" where
  "field e k = (case get_prop e k of None \<Rightarrow> JUndefined | Some v \<Rightarrow> v)"

text \<open>\<^verbatim>\<open>JSON.parse\<close> of an ArrayBuffer parses the text \<^verbatim>\<open>[object ArrayBuffer]\<close> and throws.\<close>

definition handleJsonMessage :: "env \<Rightarrow> msgdata \<Rightarrow> state \<Rightarrow> outcome" where
  "handleJsonMessage E d s =
     (case d of
        Binary b \<Rightarrow> Inl (SyntaxError, s)
      | Text str \<Rightarrow>
          (case JSON_parse E str of
             None \<Rightarrow> Inl (SyntaxError, s)
           | Some e \<Rightarrow>
               if isArray e then pushEvent e s
               else if get_prop e ''cols'' = None then Inl (TypeError, s)
               else if field e ''cols'' \<noteq> JUndefined \<or> field e ''width'' \<noteq> JUndefined then
                 Inr (handleResetMessage E
                        (nullish (field e ''cols'') (field e ''width''))
                        (nullish (field e ''rows'') (field e ''height''))
                        (field e ''time'')
                        (nullish (field e ''init'') JUndefined) s)
               else if field e ''status'' = JStr ''offline'' then Inr (handleOfflineMessage s)
               else Inr s))"

text \<open>The template string \<^verbatim>\<open>`${cols}x${rows}`\<close> on two integers.\<close>

fun decimal :: "nat \<Rightarrow> string" where
  "decimal n = (if n < 10 then [char_of (48 + n)] else decimal (n div 10) @ [char_of (48 + n mod 10)])"

declare decimal.simps [simp del]

definition cols_x_rows :: "nat \<Rightarrow> nat \<Rightarrow> string" where
  "cols_x_rows cols rows = decimal cols @ ''x'' @ decimal rows"

text \<open>\<^verbatim>\<open>new DataView(s)\<close> on a string throws a TypeError; every getter that fails throws a
  RangeError before the handler has changed anything.\<close>

definition handleStreamMessage :: "env \<Rightarrow> msgdata \<Rightarrow> state \<Rightarrow> outcome" where
  "handleStreamMessage E d s =
     (case d of
        Text str \<Rightarrow> Inl (TypeError, s)
      | Binary buffer \<Rightarrow>
          (case getUint8 buffer 0 of
             None \<Rightarrow> Inl (RangeError, s)
           | Some type \<Rightarrow>
               if type = 0x01 then
                 (case (getUint16 buffer 1, getUint16 buffer 3, getFloat32 buffer 5, getUint32 buffer 9) of
                    (Some cols, Some rows, Some time, Some len) \<Rightarrow>
                      if len > 0 then
                        (case new_Uint8Array buffer 13 len of
                           None \<Rightarrow> Inl (RangeError, s)
                         | Some bytes \<Rightarrow>
                             Inr (handleResetMessage E (JNum (NumInt (int cols))) (JNum (NumInt (int rows)))
                                    (JNum (NumF32 time)) (JStr (utf_decode E bytes)) s))
                      else
                        Inr (handleResetMessage E (JNum (NumInt (int cols))) (JNum (NumInt (int rows)))
                               (JNum (NumF32 time)) JUndefined s)
                  | _ \<Rightarrow> Inl (RangeError, s))
               else if type = 0x6f then
                 (case (getFloat32 buffer 1, getUint32 buffer 5) of
                    (Some time, Some len) \<Rightarrow>
                      (case new_Uint8Array buffer 9 len of
                         None \<Rightarrow> Inl (RangeError, s)
                       | Some bytes \<Rightarrow>
                           pushEvent (JArr [JNum (NumF32 time), JStr ''o'', JStr (utf_decode E bytes)]) s)
                  | _ \<Rightarrow> Inl (RangeError, s))
               else if type = 0x72 then
                 (case (getFloat32 buffer 1, getUint16 buffer 5, getUint16 buffer 7) of
                    (Some time, Some cols, Some rows) \<Rightarrow>
                      pushEvent (JArr [JNum (NumF32 time), JStr ''r'', JStr (cols_x_rows cols rows)]) s
                  | _ \<Rightarrow> Inl (RangeError, s))
               else if type = 0x04 then Inr (handleOfflineMessage s)
               else Inr (logger Debug (UnknownFrameType (at buffer 0)) s)))"

text \<open>\<^verbatim>\<open>utfDecoder.decode\<close> of a string throws a TypeError.\<close>

definition handleRawTextMessage :: "env \<Rightarrow> msgdata \<Rightarrow> state \<Rightarrow> outcome" where
  "handleRawTextMessage E d s =
     (case buf s of
        None \<Rightarrow> Inl (TypeError, s)
      | Some b \<Rightarrow>
          (case d of
             Text str \<Rightarrow> Inl (TypeError, s)
           | Binary bytes \<Rightarrow> pushText (utf_decode E bytes) s))"

definition detectProtocol :: "env \<Rightarrow> msgdata \<Rightarrow> state \<Rightarrow> outcome" where
  "detectProtocol E d s =
     (case d of
        Text str \<Rightarrow>
          and_then (set_onmessage HandleJsonMessage (logger Info ActivatingJson s))
            (handleJsonMessage E d)
      | Binary arr \<Rightarrow>
          if at arr 0 = Some 0x41 \<and> at arr 1 = Some 0x4c \<and> at arr 2 = Some 0x69 \<and> at arr 3 = Some 0x53 then
            (if at arr 4 = Some 1 then
               (let s1 = logger Info ActivatingALiS s;
                    compressionAlgo = at arr 5
                in and_then
                     (if compressionAlgo = Some 0 then Inr (logger Debug CompressionNone s1)
                      else socket_close (logger Error (UnsupportedCompression compressionAlgo) s1))
                     (set_onmessage HandleStreamMessage))
             else socket_close (logger Warn (UnsupportedVersion (at arr 4)) s))
          else
            (let s1 = logger Info ActivatingRaw s;
                 text = utf_decode E arr;
                 sz = (case sizeFromResizeSeq text of
                         Some z \<Rightarrow> Some z
                       | None \<Rightarrow> sizeFromScriptStartMessage text);
                 s2 = (case sz of
                         None \<Rightarrow> s1
                       | Some (cols, rows) \<Rightarrow>
                           handleResetMessage E (JNum (NumInt (int cols))) (JNum (NumInt (int rows)))
                             (JNum (NumInt 0)) JUndefined s1)
             in and_then (set_onmessage HandleRawTextMessage s2) (handleRawTextMessage E d)))"

definition connect :: "env \<Rightarrow> state \<Rightarrow> state" where
  "connect E s =
     emit (NewWebSocket (url E))
       (s\<lparr> socket := Some \<lparr> readyState = CONNECTING, onmessage = DetectProtocol \<rparr> \<rparr>)"

definition onopen :: "env \<Rightarrow> state \<Rightarrow> state" where
  "onopen E s =
     (let s1 = logger Info Opened s;
          s2 = initBuffer E JUndefined s1;
          (i, s3) = setTimeout ResetReconnectAttempt 1000 s2
      in s3\<lparr> successfulConnectionTimeout := Some i \<rparr>)"

definition onclose :: "env \<Rightarrow> nat \<Rightarrow> state \<Rightarrow> state" where
  "onclose E code s =
     (if stop s \<or> code = 1000 \<or> code = 1005 then
        emit (SetState Stopped (Some ReasonEnded)) (logger Info Closed s)
      else
        (let s1 = clearTimeout (successfulConnectionTimeout s) s;
             delay = the_reconnectDelay E (reconnectAttempt s1);
             s2 = s1\<lparr> reconnectAttempt := reconnectAttempt s1 + 1 \<rparr>;
             s3 = logger Info (UncleanClose delay) s2;
             s4 = emit (SetState Loading None) s3
         in snd (setTimeout Connect delay s4)))"

text \<open>The three methods of the object the constructor returns.\<close>

definition play :: "env \<Rightarrow> state \<Rightarrow> state" where
  "play E s = connect E s"

definition stop_driver :: "state \<Rightarrow> state" where
  "stop_driver s =
     (let s1 = s\<lparr> stop := True \<rparr>;
          s2 = (case buf s1 of None \<Rightarrow> s1 | Some b \<Rightarrow> buf_stop b s1)
      in case socket s2 of
           None \<Rightarrow> s2
         | Some w \<Rightarrow> emit SocketCloseCall (s2\<lparr> socket := Some (ws_close w) \<rparr>))"

definition getCurrentTime :: "state \<Rightarrow> jsval" where
  "getCurrentTime s = getTime (clock s)"


subsection \<open>The older revision of the driver\<close>

text \<open>
  The second source file is an older revision of the same module. Its socket life cycle,
  \<^verbatim>\<open>exponentialDelay\<close>, \<^verbatim>\<open>initBuffer\<close>, reset and offline handling are the ones above
  (it keeps \<^verbatim>\<open>clock\<close> undefined where the newer one keeps a NullClock, and guards
  \<^verbatim>\<open>setTime\<close> and \<^verbatim>\<open>getTime\<close> by hand). It differs in the three functions below: the JSON
  handler tests \<^verbatim>\<open>e.state\<close>, the stream handler reads the tag from a \<^verbatim>\<open>Uint8Array\<close>, cuts
  the text with \<^verbatim>\<open>slice\<close> and knows no resize frame, and the protocol detection reads no
  compression byte and sniffs no size. (Two of its log messages are worded differently;
  they are logged at the same levels.)
\<close>

definition handleJsonMessage_old :: "env \<Rightarrow> msgdata \<Rightarrow> state \<Rightarrow> outcome" where
  "handleJsonMessage_old E d s =
     (case d of
        Binary b \<Rightarrow> Inl (SyntaxError, s)
      | Text str \<Rightarrow>
          (case JSON_parse E str of
             None \<Rightarrow> Inl (SyntaxError, s)
           | Some e \<Rightarrow>
               if isArray e then pushEvent e s
               else if get_prop e ''cols'' = None then Inl (TypeError, s)
               else if field e ''cols'' \<noteq> JUndefined \<or> field e ''width'' \<noteq> JUndefined then
                 Inr (handleResetMessage E
                        (nullish (field e ''cols'') (field e ''width''))
                        (nullish (field e ''rows'') (field e ''height''))
                        (field e ''time'')
                        (nullish (field e ''init'') JUndefined) s)
               else if field e ''state'' = JStr ''offline'' then Inr (handleOfflineMessage s)
               else Inr s))"

definition handleStreamMessage_old :: "env \<Rightarrow> msgdata \<Rightarrow> state \<Rightarrow> outcome" where
  "handleStreamMessage_old E d s =
     (case d of
        Text str \<Rightarrow> Inl (TypeError, s)
      | Binary buffer \<Rightarrow>
          (let type = at buffer 0 in
           if type = Some 0x01 then
             (case (getUint16 buffer 1, getUint16 buffer 3, getFloat32 buffer 5, getUint32 buffer 9) of
                (Some cols, Some rows, Some time, Some len) \<Rightarrow>
                  Inr (handleResetMessage E (JNum (NumInt (int cols))) (JNum (NumInt (int rows)))
                         (JNum (NumF32 time))
                         (if len > 0 then JStr (utf_decode E (slice buffer 13 (13 + len))) else JUndefined) s)
              | _ \<Rightarrow> Inl (RangeError, s))
           else if type = Some 0x6f then
             (case (getFloat32 buffer 1, getUint32 buffer 5) of
                (Some time, Some len) \<Rightarrow>
                  pushEvent (JArr [JNum (NumF32 time), JStr ''o'',
                                   JStr (utf_decode E (slice buffer 9 (9 + len)))]) s
              | _ \<Rightarrow> Inl (RangeError, s))
           else if type = Some 0x04 then Inr (handleOfflineMessage s)
           else Inr (logger Debug (UnknownFrameType type) s)))"

definition detectProtocol_old :: "env \<Rightarrow> msgdata \<Rightarrow> state \<Rightarrow> outcome" where
  "detectProtocol_old E d s =
     (case d of
        Text str \<Rightarrow>
          and_then (set_onmessage HandleJsonMessage (logger Info ActivatingJson s))
            (handleJsonMessage_old E d)
      | Binary arr \<Rightarrow>
          if at arr 0 = Some 0x41 \<and> at arr 1 = Some 0x4c \<and> at arr 2 = Some 0x69 \<and> at arr 3 = Some 0x53 then
            (if at arr 4 = Some 1 then
               set_onmessage HandleStreamMessage (logger Info ActivatingALiS s)
             else socket_close (logger Warn (UnsupportedVersion (at arr 4)) s))
          else
            and_then (set_onmessage HandleRawTextMessage (logger Info ActivatingRaw s))
              (handleRawTextMessage E d))"

subsection \<open>Executions\<close>

text \<open>
  The code of the closure is entered by a call of \<^verbatim>\<open>play\<close> or \<^verbatim>\<open>stop\<close>, by an event of the
  socket, by a timer, or by the Buffer calling the time callback \<^verbatim>\<open>(t) => clock.setTime(t)\<close>
  it was given.
\<close>

datatype event =
    Play
  | Stop
  | SocketOpen
  | SocketMessage msgdata
  | SocketClose nat
  | Timeout nat
  | BufferTime jsval

text \<open>
  What the platform can deliver. The driver is used once (\<^verbatim>\<open>play\<close> while no socket was
  ever made). A WebSocket fires \<^verbatim>\<open>open\<close> once, when it is connecting; it delivers a message
  only while its ready state is OPEN, so never after \<^verbatim>\<open>close()\<close> was called on it; it fires
  \<^verbatim>\<open>close\<close> once. A timer fires while it is pending.
\<close>

fun enabled :: "state \<Rightarrow> event \<Rightarrow> bool" where
  "enabled s Play = (socket s = None)"
| "enabled s Stop = True"
| "enabled s SocketOpen = (case socket s of None \<Rightarrow> False | Some w \<Rightarrow> readyState w = CONNECTING)"
| "enabled s (SocketMessage d) = (case socket s of None \<Rightarrow> False | Some w \<Rightarrow> readyState w = OPEN)"
| "enabled s (SocketClose code) = (case socket s of None \<Rightarrow> False | Some w \<Rightarrow> readyState w \<noteq> CLOSED)"
| "enabled s (Timeout i) = (i \<in> set (map fst (timers s)))"
| "enabled s (BufferTime t) = (buf s \<noteq> None)"

definition set_readyState :: "ready_state \<Rightarrow> state \<Rightarrow> state" where
  "set_readyState r s =
     (case socket s of None \<Rightarrow> s | Some w \<Rightarrow> s\<lparr> socket := Some (w\<lparr> readyState := r \<rparr>) \<rparr>)"

definition onmessage_call :: "env \<Rightarrow> msgdata \<Rightarrow> state \<Rightarrow> outcome" where
  "onmessage_call E d s =
     (case socket s of
        None \<Rightarrow> Inr s
      | Some w \<Rightarrow>
          (case onmessage w of
             DetectProtocol \<Rightarrow> detectProtocol E d s
           | HandleJsonMessage \<Rightarrow> handleJsonMessage E d s
           | HandleStreamMessage \<Rightarrow> handleStreamMessage E d s
           | HandleRawTextMessage \<Rightarrow> handleRawTextMessage E d s))"

definition timer_fires :: "env \<Rightarrow> nat \<Rightarrow> state \<Rightarrow> state" where
  "timer_fires E i s =
     (let s1 = s\<lparr> timers := filter (\<lambda>t. fst t \<noteq> i) (timers s) \<rparr> in
      case map_of (timers s) i of
        None \<Rightarrow> s1
      | Some (ResetReconnectAttempt, delay) \<Rightarrow> s1\<lparr> reconnectAttempt := 0 \<rparr>
      | Some (Connect, delay) \<Rightarrow> connect E s1)"

fun fire :: "env \<Rightarrow> event \<Rightarrow> state \<Rightarrow> outcome" where
  "fire E Play s = Inr (play E s)"
| "fire E Stop s = Inr (stop_driver s)"
| "fire E SocketOpen s = Inr (onopen E (set_readyState OPEN s))"
| "fire E (SocketMessage d) s = onmessage_call E d s"
| "fire E (SocketClose code) s = Inr (onclose E code (set_readyState CLOSED s))"
| "fire E (Timeout i) s = Inr (timer_fires E i s)"
| "fire E (BufferTime t) s = Inr (s\<lparr> clock := setTime t (clock s) \<rparr>)"

text \<open>An exception that leaves a handler is reported by the platform; the state stays as
  it was at the throw.\<close>

definition after :: "outcome \<Rightarrow> state" where
  "after r = (case r of Inl (e, s) \<Rightarrow> s | Inr s \<Rightarrow> s)"

definition step :: "env \<Rightarrow> event \<Rightarrow> state \<Rightarrow> state option" where
  "step E e s = (if enabled s e then Some (after (fire E e s)) else None)"

fun run :: "env \<Rightarrow> event list \<Rightarrow> state \<Rightarrow> state option" where
  "run E [] s = Some s"
| "run E (e # es) s = (case step E e s of None \<Rightarrow> None | Some s' \<Rightarrow> run E es s')"

subsection \<open>A sample environment\<close>

text \<open>
  An environment to run the driver in: every option left to its default, a decoder that is
  right on ASCII bytes, the time of a fresh Clock 0, and a \<^verbatim>\<open>JSON.parse\<close> that knows the
  messages used below.
\<close>

definition sample_parse :: "string \<Rightarrow> jsval option" where
  \<open>sample_parse t =
     (if t = ''{"cols":80,"rows":24,"time":0}'' then
        Some (JObj [(''cols'', JNum (NumInt 80)), (''rows'', JNum (NumInt 24)), (''time'', JNum (NumInt 0))])
      else if t = ''{"status":"offline"}'' then Some (JObj [(''status'', JStr ''offline'')])
      else if t = ''{"state":"offline"}'' then Some (JObj [(''state'', JStr ''offline'')])
      else if t = ''{"ping":1}'' then Some (JObj [(''ping'', JNum (NumInt 1))])
      else if t = ''[1,"o","hi"]'' then Some (JArr [JNum (NumInt 1), JStr ''o'', JStr ''hi''])
      else None)\<close>

definition sample_env :: env where
  "sample_env = \<lparr> url = ''ws://localhost/ws'', bufferTime = JUndefined, reconnectDelay = None,
     minFrameTime = JUndefined, JSON_parse = sample_parse,
     utf_decode = map (\<lambda>b. char_of (unat b)), clock_initial = JNum (NumInt 0) \<rparr>"

text \<open>The state after \<^verbatim>\<open>play()\<close> and the \<^verbatim>\<open>open\<close> event of the socket.\<close>

definition opened :: state where
  "opened = after (fire sample_env SocketOpen (after (fire sample_env Play websocket_init)))"

subsection \<open>The driver after \<^verbatim>\<open>stop()\<close>\<close>

text \<open>
  The situation \<^verbatim>\<open>stop()\<close> leaves when no reconnect is scheduled: the stop flag is set,
  the socket (if there is one) is closing or closed, the Buffer (if there is one) was
  stopped. \<open>close_pending\<close> counts the close events the socket can still fire, and an
  effect is \<open>quiet\<close> when it is one of the calls that can still be made then.
\<close>

definition closing_or_closed :: "state \<Rightarrow> bool" where
  "closing_or_closed s =
     (case socket s of None \<Rightarrow> True | Some w \<Rightarrow> readyState w = CLOSING \<or> readyState w = CLOSED)"

definition no_reconnect_pending :: "state \<Rightarrow> bool" where
  "no_reconnect_pending s = (\<forall>t \<in> set (timers s). fst (snd t) \<noteq> Connect)"

definition buffer_halted :: "state \<Rightarrow> bool" where
  "buffer_halted s = (case buf s of None \<Rightarrow> True | Some b \<Rightarrow> stopped b)"

definition halted :: "state \<Rightarrow> bool" where
  "halted s = (stop s \<and> closing_or_closed s \<and> no_reconnect_pending s \<and> buffer_halted s)"

definition close_pending :: "state \<Rightarrow> nat" where
  "close_pending s = (case socket s of None \<Rightarrow> 0 | Some w \<Rightarrow> if readyState w = CLOSED then 0 else 1)"

definition quiet :: "effect \<Rightarrow> bool" where
  "quiet e = (e = Log Info Closed \<or> e = SetState Stopped (Some ReasonEnded) \<or> e = BufStop \<or> e = SocketCloseCall)"

definition stopped_calls :: "effect list \<Rightarrow> nat" where
  "stopped_calls es = length (filter (\<lambda>e. e = SetState Stopped (Some ReasonEnded)) es)"

subsection \<open>The frame layout of the spec\<close>

text \<open>
  The table of the binary stream handler, read as an encoder: the tag byte, then the fields
  in little-endian byte order (\<open>u16\<close> in two bytes, \<open>u32\<close> and the bit pattern of an
  \<open>f32\<close> in four), then the text bytes.
\<close>

definition le16 :: "nat \<Rightarrow> byte list" where
  "le16 n = [of_nat n, of_nat (n div 256)]"

definition le32 :: "nat \<Rightarrow> byte list" where
  "le32 n = [of_nat n, of_nat (n div 256), of_nat (n div 65536), of_nat (n div 16777216)]"

definition reset_frame :: "nat \<Rightarrow> nat \<Rightarrow> 32 word \<Rightarrow> byte list \<Rightarrow> byte list" where
  "reset_frame cols rows time init =
     [0x01] @ le16 cols @ le16 rows @ le32 (unat time) @ le32 (length init) @ init"

definition output_frame :: "32 word \<Rightarrow> byte list \<Rightarrow> byte list" where
  "output_frame time text = [0x6f] @ le32 (unat time) @ le32 (length text) @ text"

definition resize_frame :: "32 word \<Rightarrow> nat \<Rightarrow> nat \<Rightarrow> byte list" where
  "resize_frame time cols rows = [0x72] @ le32 (unat time) @ le16 cols @ le16 rows"

text \<open>The value of \<^verbatim>\<open>size\<close> in the protocol detection:
  \<^verbatim>\<open>sizeFromResizeSeq(text) ?? sizeFromScriptStartMessage(text)\<close>.\<close>

definition sniffed_size :: "string \<Rightarrow> (nat \<times> nat) option" where
  "sniffed_size text =
     (case sizeFromResizeSeq text of Some z \<Rightarrow> Some z | None \<Rightarrow> sizeFromScriptStartMessage text)"

subsection \<open>Resets in a trace\<close>

text \<open>
  \<open>is_Reset\<close> picks the calls of the \<^verbatim>\<open>reset\<close> callback out of a trace. \<open>clock_kept s s'\<close>:
  from \<open>s\<close> to \<open>s'\<close> the trace has only grown, and if there was no active Clock in \<open>s\<close>
  and no \<^verbatim>\<open>reset\<close> call was added, there is none in \<open>s'\<close>.
\<close>

fun is_Reset :: "effect \<Rightarrow> bool" where
  "is_Reset (Reset cols rows init) = True"
| "is_Reset e = False"

definition clock_kept :: "state \<Rightarrow> state \<Rightarrow> bool" where
  "clock_kept s s' =
     (\<exists>new. effects s' = effects s @ new
            \<and> (clock s = NullClock \<and> filter is_Reset new = [] \<longrightarrow> clock s' = NullClock))"

subsection \<open>The Buffer of an open socket\<close>

text \<open>
  \<open>buf_kept s s'\<close>: a Buffer that exists in \<open>s\<close> has not become undefined in \<open>s'\<close>.
  \<open>buffer_when_open s\<close>: if the socket is open, there is a Buffer.
\<close>

definition buf_kept :: "state \<Rightarrow> state \<Rightarrow> bool" where
  "buf_kept s s' = (buf s \<noteq> None \<longrightarrow> buf s' \<noteq> None)"

definition buffer_when_open :: "state \<Rightarrow> bool" where
  "buffer_when_open s =
     (case socket s of None \<Rightarrow> True | Some w \<Rightarrow> readyState w = OPEN \<longrightarrow> buf s \<noteq> None)"

section \<open>Properties of the driver\<close>

subsection \<open>The default reconnect delay\<close>

lemma pow_ge_16: "4 \<le> n \<Longrightarrow> (16::nat) \<le> 2 ^ n"
proof -
  assume "4 \<le> n"
  then have "(2::nat) ^ 4 \<le> 2 ^ n" by (intro power_increasing) simp_all
  then show ?thesis by simp
qed

text \<open>
  C6. The default delay is \<open>min (500 * 2 ^ attempt) 5000\<close> for every attempt count: below
  attempt 4 it is \<open>500 * 2 ^ attempt\<close> and strictly smaller than the next delay, from
  attempt 4 on it is the cap 5000, and the first six delays are 500, 1000, 2000, 4000, 5000,
  5000.
\<close>

theorem exponentialDelay_schedule:
  "exponentialDelay attempt = min (500 * 2 ^ attempt) 5000
   \<and> (attempt < 4 \<longrightarrow> exponentialDelay attempt = 500 * 2 ^ attempt
                      \<and> exponentialDelay attempt < exponentialDelay (Suc attempt))
   \<and> (4 \<le> attempt \<longrightarrow> exponentialDelay attempt = 5000)
   \<and> map exponentialDelay [0, 1, 2, 3, 4, 5] = [500, 1000, 2000, 4000, 5000, 5000]"
proof -
  have small: "exponentialDelay attempt = 500 * 2 ^ attempt
               \<and> exponentialDelay attempt < exponentialDelay (Suc attempt)" if "attempt < 4"
  proof -
    from that consider "attempt = 0" | "attempt = 1" | "attempt = 2" | "attempt = 3" by linarith
    then show ?thesis by cases (simp_all add: exponentialDelay_def)
  qed
  have large: "exponentialDelay attempt = 5000" if "4 \<le> attempt"
    using pow_ge_16 [OF that] by (simp add: exponentialDelay_def)
  have sched: "map exponentialDelay [0, 1, 2, 3, 4, 5] = [500, 1000, 2000, 4000, 5000, 5000]"
    by (simp add: exponentialDelay_def)
  have eq: "exponentialDelay attempt = min (500 * 2 ^ attempt) 5000"
    by (simp add: exponentialDelay_def)
  from eq small large sched show ?thesis by blast
qed

theorem exponentialDelay_schedule_witness:
  "(3::nat) < 4 \<and> exponentialDelay 3 = 4000 \<and> exponentialDelay 3 < exponentialDelay 4
   \<and> (4::nat) \<le> 7 \<and> exponentialDelay 7 = 5000"
  using exponentialDelay_schedule [of 3] exponentialDelay_schedule [of 7] by simp

subsection \<open>The close handler\<close>

lemma map_of_snoc_fresh: "k \<notin> fst ` set xs \<Longrightarrow> map_of (xs @ [(k, v)]) k = Some v"
  by (induction xs) auto

lemma onclose_clean:
  "stop s \<or> code = 1000 \<or> code = 1005 \<Longrightarrow>
   onclose E code s = s\<lparr> effects := effects s @ [Log Info Closed, SetState Stopped (Some ReasonEnded)] \<rparr>"
  by (auto simp: onclose_def emit_def logger_def)

lemma onclose_unclean:
  "\<not> stop s \<Longrightarrow> code \<noteq> 1000 \<Longrightarrow> code \<noteq> 1005 \<Longrightarrow>
   onclose E code s =
     s\<lparr> reconnectAttempt := Suc (reconnectAttempt s),
        timers := filter (\<lambda>t. Some (fst t) \<noteq> successfulConnectionTimeout s) (timers s)
                  @ [(next_timer s, Connect, the_reconnectDelay E (reconnectAttempt s))],
        next_timer := Suc (next_timer s),
        effects := effects s @ [ClearTimeout (successfulConnectionTimeout s),
                                Log Info (UncleanClose (the_reconnectDelay E (reconnectAttempt s))),
                                SetState Loading None,
                                SetTimeout (next_timer s) Connect (the_reconnectDelay E (reconnectAttempt s))] \<rparr>"
  by (cases "successfulConnectionTimeout s")
     (simp_all add: onclose_def emit_def logger_def clearTimeout_def setTimeout_def Let_def)

lemma opened_eq: "opened = \<lparr> socket = Some \<lparr> readyState = OPEN, onmessage = DetectProtocol \<rparr>,
     buf = Some \<lparr> baseStreamTime = JUndefined, stopped = False \<rparr>, clock = NullClock,
     reconnectAttempt = 0, successfulConnectionTimeout = Some 0, stop = False,
     timers = [(0, ResetReconnectAttempt, 1000)], next_timer = 1,
     effects = [NewWebSocket ''ws://localhost/ws'', Log Info Opened,
                GetBuffer (JNum (NumF64 0x3FB999999999999A)) JUndefined JUndefined,
                SetTimeout 0 ResetReconnectAttempt 1000] \<rparr>"
  by (simp add: opened_def after_def play_def connect_def emit_def onopen_def logger_def initBuffer_def setTimeout_def
  set_readyState_def websocket_init_def  the_bufferTime_def sample_env_def)

text \<open>
  C2. The close handler. When the stop flag is set or the close code is 1000 or 1005, the
  handler logs, calls \<^verbatim>\<open>setState('stopped', {reason: 'ended'})\<close> and changes nothing else:
  no timer is added. Otherwise it clears the stability timer, takes the delay from
  \<^verbatim>\<open>reconnectDelay\<close> at the current attempt count, increments the count, calls
  \<^verbatim>\<open>setState('loading')\<close> and leaves one more pending timer, with exactly that delay, whose
  firing opens a new socket.
\<close>

theorem onclose_clean_or_reconnect:
  "(stop s \<or> code = 1000 \<or> code = 1005 \<longrightarrow>
      onclose E code s =
        s\<lparr> effects := effects s @ [Log Info Closed, SetState Stopped (Some ReasonEnded)] \<rparr>)
   \<and> (\<not> stop s \<and> code \<noteq> 1000 \<and> code \<noteq> 1005 \<longrightarrow>
      (let delay = the_reconnectDelay E (reconnectAttempt s); s' = onclose E code s in
         effects s' = effects s @ [ClearTimeout (successfulConnectionTimeout s),
                                   Log Info (UncleanClose delay), SetState Loading None,
                                   SetTimeout (next_timer s) Connect delay]
       \<and> timers s' = filter (\<lambda>t. Some (fst t) \<noteq> successfulConnectionTimeout s) (timers s)
                      @ [(next_timer s, Connect, delay)]
       \<and> reconnectAttempt s' = reconnectAttempt s + 1
       \<and> (next_timer s \<notin> fst ` set (timers s) \<longrightarrow>
            effects (timer_fires E (next_timer s) s') = effects s' @ [NewWebSocket (url E)])))"
proof (intro conjI impI)
  assume "stop s \<or> code = 1000 \<or> code = 1005"
  then show "onclose E code s =
        s\<lparr> effects := effects s @ [Log Info Closed, SetState Stopped (Some ReasonEnded)] \<rparr>"
    by (rule onclose_clean)
next
  assume a: "\<not> stop s \<and> code \<noteq> 1000 \<and> code \<noteq> 1005"
  let ?d = "the_reconnectDelay E (reconnectAttempt s)"
  let ?kept = "filter (\<lambda>t. Some (fst t) \<noteq> successfulConnectionTimeout s) (timers s)"
  have eq: "onclose E code s =
     s\<lparr> reconnectAttempt := Suc (reconnectAttempt s),
        timers := ?kept @ [(next_timer s, Connect, ?d)],
        next_timer := Suc (next_timer s),
        effects := effects s @ [ClearTimeout (successfulConnectionTimeout s),
                                Log Info (UncleanClose ?d), SetState Loading None,
                                SetTimeout (next_timer s) Connect ?d] \<rparr>"
    using a by (simp add: onclose_unclean)
  have fires: "effects (timer_fires E (next_timer s) (onclose E code s))
               = effects (onclose E code s) @ [NewWebSocket (url E)]"
    if fresh: "next_timer s \<notin> fst ` set (timers s)"
  proof -
    from fresh have "next_timer s \<notin> fst ` set ?kept" by auto
    then have "map_of (?kept @ [(next_timer s, Connect, ?d)]) (next_timer s) = Some (Connect, ?d)"
      by (rule map_of_snoc_fresh)
    then show ?thesis
      by (simp add: eq timer_fires_def connect_def emit_def)
  qed
  show "let delay = ?d; s' = onclose E code s in
         effects s' = effects s @ [ClearTimeout (successfulConnectionTimeout s),
                                   Log Info (UncleanClose delay), SetState Loading None,
                                   SetTimeout (next_timer s) Connect delay]
       \<and> timers s' = ?kept @ [(next_timer s, Connect, delay)]
       \<and> reconnectAttempt s' = reconnectAttempt s + 1
       \<and> (next_timer s \<notin> fst ` set (timers s) \<longrightarrow>
            effects (timer_fires E (next_timer s) s') = effects s' @ [NewWebSocket (url E)])"
    unfolding Let_def using fires by (simp add: eq)
qed

theorem onclose_clean_or_reconnect_witness:
  "effects (onclose sample_env 1000 opened) = effects opened @ [Log Info Closed, SetState Stopped (Some ReasonEnded)]
   \<and> timers (onclose sample_env 1000 opened) = [(0, ResetReconnectAttempt, 1000)]
   \<and> effects (onclose sample_env 1006 opened) =
        effects opened @ [ClearTimeout (Some 0), Log Info (UncleanClose 500), SetState Loading None,
                          SetTimeout 1 Connect 500]
   \<and> timers (onclose sample_env 1006 opened) = [(1, Connect, 500)]
   \<and> reconnectAttempt (onclose sample_env 1006 opened) = 1
   \<and> effects (timer_fires sample_env 1 (onclose sample_env 1006 opened)) =
        effects (onclose sample_env 1006 opened) @ [NewWebSocket ''ws://localhost/ws'']"
proof -
  have d: "the_reconnectDelay sample_env 0 = 500"
    by (simp add: the_reconnectDelay_def sample_env_def exponentialDelay_def)
  have u: "url sample_env = ''ws://localhost/ws''" by (simp add: sample_env_def)
  show ?thesis
    using onclose_clean_or_reconnect [of opened 1000 sample_env]
          onclose_clean_or_reconnect [of opened 1006 sample_env]
    by (simp add: opened_eq d u Let_def)
qed

subsection \<open>After \<^verbatim>\<open>stop()\<close>\<close>

lemmas run_simps = step_def after_def play_def connect_def emit_def onopen_def logger_def
  initBuffer_def setTimeout_def set_readyState_def stop_driver_def buf_stop_def ws_close_def
  onclose_def the_bufferTime_def the_reconnectDelay_def clearTimeout_def exponentialDelay_def
  timer_fires_def Let_def

lemma closing_or_closed_ws_close: "readyState (ws_close w) = CLOSING \<or> readyState (ws_close w) = CLOSED"
  by (cases "readyState w") (simp_all add: ws_close_def)

lemma stop_driver_effects:
  "effects (stop_driver s) =
     effects s @ (case buf s of None \<Rightarrow> [] | Some b \<Rightarrow> [BufStop])
               @ (case socket s of None \<Rightarrow> [] | Some w \<Rightarrow> [SocketCloseCall])"
  by (simp add: stop_driver_def buf_stop_def emit_def Let_def split: option.splits)

lemma stop_driver_fields:
  "stop (stop_driver s)" "timers (stop_driver s) = timers s"
  "socket (stop_driver s) = map_option ws_close (socket s)"
  "buf (stop_driver s) = map_option (\<lambda>b. b\<lparr> stopped := True \<rparr>) (buf s)"
  by (simp_all add: stop_driver_def buf_stop_def emit_def Let_def split: option.splits)

lemma halted_stop_driver: "no_reconnect_pending s \<Longrightarrow> halted (stop_driver s)"
  using closing_or_closed_ws_close
  by (auto simp: halted_def stop_driver_fields closing_or_closed_def no_reconnect_pending_def
      buffer_halted_def  split: option.splits)

lemma close_pending_ws_close:
  "readyState w = CLOSING \<or> readyState w = CLOSED \<Longrightarrow> ws_close w = w"
  by (auto simp: ws_close_def)

lemma quiet_stepI:
  "halted s' \<Longrightarrow> effects s' = effects s @ new \<Longrightarrow> list_all quiet new \<Longrightarrow>
   stopped_calls new + close_pending s' \<le> close_pending s \<Longrightarrow>
   halted s' \<and> (\<exists>new. effects s' = effects s @ new \<and> list_all quiet new
                     \<and> stopped_calls new + close_pending s' \<le> close_pending s)"
  by blast

lemma halted_Stop:
  assumes h: "halted s"
  shows "halted (stop_driver s) \<and> (\<exists>new. effects (stop_driver s) = effects s @ new \<and> list_all quiet new
                     \<and> stopped_calls new + close_pending (stop_driver s) \<le> close_pending s)"
proof (rule quiet_stepI [where new = "(case buf s of None \<Rightarrow> [] | Some b \<Rightarrow> [BufStop])
               @ (case socket s of None \<Rightarrow> [] | Some w \<Rightarrow> [SocketCloseCall])"])
  from h have "no_reconnect_pending s" by (simp add: halted_def)
  then show "halted (stop_driver s)" by (rule halted_stop_driver)
  show "effects (stop_driver s) = effects s @ (case buf s of None \<Rightarrow> [] | Some b \<Rightarrow> [BufStop])
               @ (case socket s of None \<Rightarrow> [] | Some w \<Rightarrow> [SocketCloseCall])"
    by (rule stop_driver_effects)
  show "list_all quiet ((case buf s of None \<Rightarrow> [] | Some b \<Rightarrow> [BufStop])
               @ (case socket s of None \<Rightarrow> [] | Some w \<Rightarrow> [SocketCloseCall]))"
    by (simp add: quiet_def split: option.splits)
  from h have "socket (stop_driver s) = socket s"
    by (cases "socket s") (simp_all add: stop_driver_fields halted_def closing_or_closed_def close_pending_ws_close)
  then show "stopped_calls ((case buf s of None \<Rightarrow> [] | Some b \<Rightarrow> [BufStop])
               @ (case socket s of None \<Rightarrow> [] | Some w \<Rightarrow> [SocketCloseCall]))
             + close_pending (stop_driver s) \<le> close_pending s"
    by (simp add: stopped_calls_def close_pending_def split: option.splits)
qed

lemma halted_SocketClose:
  assumes h: "halted s" and en: "enabled s (SocketClose code)"
  shows "halted (onclose E code (set_readyState CLOSED s))
     \<and> (\<exists>new. effects (onclose E code (set_readyState CLOSED s)) = effects s @ new \<and> list_all quiet new
              \<and> stopped_calls new + close_pending (onclose E code (set_readyState CLOSED s)) \<le> close_pending s)"
proof -
  from en obtain w where w: "socket s = Some w" "readyState w \<noteq> CLOSED"
    by (auto split: option.splits)
  let ?s1 = "set_readyState CLOSED s"
  from h have st: "stop ?s1" by (simp add: halted_def set_readyState_def w)
  then have eq: "onclose E code ?s1 =
      ?s1\<lparr> effects := effects ?s1 @ [Log Info Closed, SetState Stopped (Some ReasonEnded)] \<rparr>"
    by (simp add: onclose_clean)
  show ?thesis
  proof (rule quiet_stepI [where new = "[Log Info Closed, SetState Stopped (Some ReasonEnded)]"])
    from h show "halted (onclose E code ?s1)"
      by (simp add: eq) (simp add: halted_def set_readyState_def w closing_or_closed_def
          no_reconnect_pending_def buffer_halted_def)
    show "effects (onclose E code ?s1) = effects s @ [Log Info Closed, SetState Stopped (Some ReasonEnded)]"
      by (simp add: eq) (simp add: set_readyState_def w)
    show "list_all quiet [Log Info Closed, SetState Stopped (Some ReasonEnded)]"
      by (simp add: quiet_def)
    show "stopped_calls [Log Info Closed, SetState Stopped (Some ReasonEnded)]
            + close_pending (onclose E code ?s1) \<le> close_pending s"
      by (simp add: eq) (simp add: stopped_calls_def close_pending_def set_readyState_def w)
  qed
qed

lemma halted_Timeout:
  assumes h: "halted s"
  shows "halted (timer_fires E i s)
     \<and> (\<exists>new. effects (timer_fires E i s) = effects s @ new \<and> list_all quiet new
              \<and> stopped_calls new + close_pending (timer_fires E i s) \<le> close_pending s)"
proof -
  have nc: "map_of (timers s) i \<noteq> Some (Connect, d)" for d
  proof
    assume "map_of (timers s) i = Some (Connect, d)"
    then have "(i, Connect, d) \<in> set (timers s)" by (rule map_of_SomeD)
    with h show False by (auto simp: halted_def no_reconnect_pending_def)
  qed
  have eq: "timer_fires E i s = s\<lparr> timers := filter (\<lambda>t. fst t \<noteq> i) (timers s) \<rparr>
          \<or> timer_fires E i s = s\<lparr> timers := filter (\<lambda>t. fst t \<noteq> i) (timers s), reconnectAttempt := 0 \<rparr>"
    using nc by (auto simp: timer_fires_def Let_def split: option.splits timer_callback.splits)
  show ?thesis
  proof (rule quiet_stepI [where new = "[]"])
    from h eq show "halted (timer_fires E i s)"
      by (auto simp: halted_def closing_or_closed_def no_reconnect_pending_def buffer_halted_def)
    from eq show "effects (timer_fires E i s) = effects s @ []" by auto
    show "list_all quiet []" by simp
    from eq show "stopped_calls [] + close_pending (timer_fires E i s) \<le> close_pending s"
      by (auto simp: stopped_calls_def close_pending_def)
  qed
qed

lemma halted_BufferTime:
  assumes h: "halted s"
  shows "halted (s\<lparr> clock := c \<rparr>)
     \<and> (\<exists>new. effects (s\<lparr> clock := c \<rparr>) = effects s @ new \<and> list_all quiet new
              \<and> stopped_calls new + close_pending (s\<lparr> clock := c \<rparr>) \<le> close_pending s)"
proof (rule quiet_stepI [where new = "[]"])
  from h show "halted (s\<lparr> clock := c \<rparr>)"
    by (simp add: halted_def closing_or_closed_def no_reconnect_pending_def buffer_halted_def)
qed (simp_all add: stopped_calls_def close_pending_def)

lemma halted_not_enabled:
  "halted s \<Longrightarrow> \<not> enabled s SocketOpen \<and> \<not> enabled s (SocketMessage d)"
  by (auto simp: halted_def closing_or_closed_def split: option.splits)

lemma halted_step:
  assumes h: "halted s" and e: "e \<noteq> Play" and st: "step E e s = Some s'"
  shows "halted s' \<and> (\<exists>new. effects s' = effects s @ new \<and> list_all quiet new
                   \<and> stopped_calls new + close_pending s' \<le> close_pending s)"
proof -
  from st have en: "enabled s e" and s': "s' = after (fire E e s)"
    by (auto simp: step_def split: if_splits)
  show ?thesis
  proof (cases e)
    case Play
    with e show ?thesis by simp
  next
    case Stop
    with s' halted_Stop [OF h] show ?thesis by (simp add: after_def)
  next
    case SocketOpen
    with en halted_not_enabled [OF h] show ?thesis by simp
  next
    case (SocketMessage d)
    with en halted_not_enabled [OF h] show ?thesis by simp
  next
    case (SocketClose code)
    with s' en halted_SocketClose [OF h, of code E] show ?thesis by (simp add: after_def)
  next
    case (Timeout i)
    with s' halted_Timeout [OF h, of E i] show ?thesis by (simp add: after_def)
  next
    case (BufferTime t)
    with s' halted_BufferTime [OF h] show ?thesis by (simp add: after_def)
  qed
qed

lemma halted_run:
  "halted s \<Longrightarrow> Play \<notin> set es \<Longrightarrow> run E es s = Some s' \<Longrightarrow>
   halted s' \<and> (\<exists>new. effects s' = effects s @ new \<and> list_all quiet new
                     \<and> stopped_calls new + close_pending s' \<le> close_pending s)"
proof (induction es arbitrary: s)
  case Nil
  then show ?case by (simp add: stopped_calls_def)
next
  case (Cons e es)
  from Cons.prems obtain s1 where s1: "step E e s = Some s1" and r: "run E es s1 = Some s'"
    by (auto split: option.splits)
  from Cons.prems have ne: "e \<noteq> Play" and nes: "Play \<notin> set es" by auto
  from halted_step [OF Cons.prems(1) ne s1]
  obtain n1 where h1: "halted s1" and n1: "effects s1 = effects s @ n1" "list_all quiet n1"
      "stopped_calls n1 + close_pending s1 \<le> close_pending s" by blast
  from Cons.IH [OF h1 nes r]
  obtain n2 where h2: "halted s'" and n2: "effects s' = effects s1 @ n2" "list_all quiet n2"
      "stopped_calls n2 + close_pending s' \<le> close_pending s1" by blast
  have "effects s' = effects s @ (n1 @ n2)" using n1 n2 by simp
  moreover have "list_all quiet (n1 @ n2)" using n1 n2 by simp
  moreover have "stopped_calls (n1 @ n2) + close_pending s' \<le> close_pending s"
    using n1 n2 by (simp add: stopped_calls_def)
  ultimately show ?case using h2 by blast
qed


lemma close_pending_le_1: "close_pending s \<le> 1"
  by (simp add: close_pending_def split: option.splits)

text \<open>
  C1 (amended). Let \<^verbatim>\<open>stop()\<close> be called while no reconnect is scheduled, and let
  \<^verbatim>\<open>play()\<close> not be called again. Whatever events and timers follow, the driver makes no
  \<^verbatim>\<open>reset\<close> call, pushes nothing to a Buffer and creates none, and schedules no reconnect;
  its only call of \<^verbatim>\<open>setState\<close> is the \<^verbatim>\<open>setState('stopped', {reason: 'ended'})\<close> of
  the close handler, made at most once.
\<close>

theorem quiet_after_stop:
  assumes "\<forall>t \<in> set (timers s). fst (snd t) \<noteq> Connect"
    and "Play \<notin> set es"
    and "run E es (stop_driver s) = Some s'"
  shows "\<exists>new. effects s' = effects (stop_driver s) @ new
      \<and> (\<forall>e \<in> set new. e = Log Info Closed \<or> e = SetState Stopped (Some ReasonEnded)
                          \<or> e = BufStop \<or> e = SocketCloseCall)
      \<and> length (filter (\<lambda>e. e = SetState Stopped (Some ReasonEnded)) new) \<le> 1
      \<and> (\<forall>t \<in> set (timers s'). fst (snd t) \<noteq> Connect)"
proof -
  from assms(1) have "halted (stop_driver s)"
    by (intro halted_stop_driver) (simp add: no_reconnect_pending_def)
  from halted_run [OF this assms(2) assms(3)]
  obtain new where h: "halted s'" and n: "effects s' = effects (stop_driver s) @ new"
      "list_all quiet new" "stopped_calls new + close_pending s' \<le> close_pending (stop_driver s)"
    by blast
  from n(3) close_pending_le_1 [of "stop_driver s"] have "stopped_calls new \<le> 1" by linarith
  moreover from h have "\<forall>t \<in> set (timers s'). fst (snd t) \<noteq> Connect"
    by (simp add: halted_def no_reconnect_pending_def)
  moreover from n(2) have "\<forall>e \<in> set new. e = Log Info Closed \<or> e = SetState Stopped (Some ReasonEnded)
                          \<or> e = BufStop \<or> e = SocketCloseCall"
    by (simp add: list_all_iff quiet_def)
  ultimately show ?thesis using n(1) unfolding stopped_calls_def by blast
qed

lemma stop_driver_opened:
  "stop_driver opened = opened\<lparr> socket := Some \<lparr> readyState = CLOSING, onmessage = DetectProtocol \<rparr>,
      buf := Some \<lparr> baseStreamTime = JUndefined, stopped = True \<rparr>, stop := True,
      effects := effects opened @ [BufStop, SocketCloseCall] \<rparr>"
  by (simp add: opened_eq stop_driver_def buf_stop_def emit_def ws_close_def Let_def)

theorem quiet_after_stop_witness:
  "timers opened = [(0, ResetReconnectAttempt, 1000)]
   \<and> Play \<notin> set [Timeout 0, BufferTime (JNum (NumInt 1)), SocketClose 1005, Stop]
   \<and> (\<exists>s'. run sample_env [Timeout 0, BufferTime (JNum (NumInt 1)), SocketClose 1005, Stop]
              (stop_driver opened) = Some s'
        \<and> effects s' = effects (stop_driver opened)
                         @ [Log Info Closed, SetState Stopped (Some ReasonEnded), BufStop, SocketCloseCall]
        \<and> (\<exists>new. effects s' = effects (stop_driver opened) @ new
             \<and> (\<forall>e \<in> set new. e = Log Info Closed \<or> e = SetState Stopped (Some ReasonEnded)
                               \<or> e = BufStop \<or> e = SocketCloseCall)
             \<and> length (filter (\<lambda>e. e = SetState Stopped (Some ReasonEnded)) new) \<le> 1
             \<and> (\<forall>t \<in> set (timers s'). fst (snd t) \<noteq> Connect)))"
proof -
  let ?es = "[Timeout 0, BufferTime (JNum (NumInt 1)), SocketClose 1005, Stop]"
  have t: "\<forall>t \<in> set (timers opened). fst (snd t) \<noteq> Connect" by (simp add: opened_eq)
  have p: "Play \<notin> set ?es" by simp
  obtain s' where r: "run sample_env ?es (stop_driver opened) = Some s'"
    and e: "effects s' = effects (stop_driver opened)
                         @ [Log Info Closed, SetState Stopped (Some ReasonEnded), BufStop, SocketCloseCall]"
    by (simp add: stop_driver_opened opened_eq run_simps)
  have t0: "timers opened = [(0, ResetReconnectAttempt, 1000)]" by (simp add: opened_eq)
  from quiet_after_stop [OF t p r] t0 p r e show ?thesis by blast
qed

text \<open>
  C1 as stated fails: after \<^verbatim>\<open>play()\<close>, the \<^verbatim>\<open>open\<close> event and \<^verbatim>\<open>stop()\<close>, the stop
  flag is set, and the close event of the socket calls \<^verbatim>\<open>setState\<close>.
\<close>

theorem setState_after_stop_counterexample:
  "run sample_env [Play, SocketOpen, Stop] websocket_init = Some (stop_driver opened)
   \<and> stop (stop_driver opened)
   \<and> map_option effects (run sample_env [SocketClose 1005] (stop_driver opened))
       = Some (effects (stop_driver opened) @ [Log Info Closed, SetState Stopped (Some ReasonEnded)])"
  by (simp add: opened_def websocket_init_def sample_env_def run_simps)

text \<open>
  With a reconnect scheduled when \<^verbatim>\<open>stop()\<close> is called, the timer still fires: \<^verbatim>\<open>stop\<close>
  clears no timer and \<^verbatim>\<open>connect\<close> does not read the stop flag. The new socket opens and
  its first message resets the stream.
\<close>

lemma reconnect_after_stop:
  "map_option (drop 10 \<circ> effects)
     (run sample_env [Play, SocketOpen, SocketClose 1006, Stop, Timeout 1, SocketOpen,
                      SocketMessage (Text ''{\"cols\":80,\"rows\":24,\"time\":0}'')] websocket_init)
   = Some [NewWebSocket ''ws://localhost/ws'', Log Info Opened, BufStop,
           GetBuffer (JNum (NumF64 0x3FB999999999999A)) JUndefined JUndefined,
           SetTimeout 2 ResetReconnectAttempt 1000, Log Info ActivatingJson,
           Log Debug (StreamReset (JNum (NumInt 80)) (JNum (NumInt 24)) (JNum (NumInt 0))),
           SetState Playing None, BufStop,
           GetBuffer (JNum (NumF64 0x3FB999999999999A)) (JNum (NumInt 0)) JUndefined,
           Reset (JNum (NumInt 80)) (JNum (NumInt 24)) JUndefined]"
  by (simp add: websocket_init_def sample_env_def sample_parse_def run_simps onmessage_call_def
      detectProtocol_def set_onmessage_def and_then_def handleJsonMessage_def field_def nullish_def
      handleResetMessage_def)

subsection \<open>The header of the binary protocol\<close>

lemma at_Cons_0: "at (x # xs) 0 = Some x"
  by (simp add: at_def)

lemma at_Cons_Suc: "at (x # xs) (Suc n) = at xs n"
  by (simp add: at_def)

lemma at_header:
  "at (a # b # c # d # rest) 0 = Some a" "at (a # b # c # d # rest) (Suc 0) = Some b"
  "at (a # b # c # d # rest) 2 = Some c" "at (a # b # c # d # rest) 3 = Some d"
  "at (a # b # c # d # rest) 4 = at rest 0" "at (a # b # c # d # rest) 5 = at rest 1"
  by (simp_all add: at_def nth_Cons' )

lemma detectProtocol_version:
  assumes "socket s = Some w" and "at rest 0 \<noteq> Some 1"
  shows "detectProtocol E (Binary (0x41 # 0x4c # 0x69 # 0x53 # rest)) s =
           Inr (s\<lparr> socket := Some (ws_close w),
                   effects := effects s @ [Log Warn (UnsupportedVersion (at rest 0)), SocketCloseCall] \<rparr>)"
  using assms by (simp add: detectProtocol_def at_header socket_close_def logger_def emit_def)

lemma detectProtocol_compression:
  assumes "socket s = Some w" and "at rest 0 = Some 1" and "at rest 1 \<noteq> Some 0"
  shows "detectProtocol E (Binary (0x41 # 0x4c # 0x69 # 0x53 # rest)) s =
           Inr (s\<lparr> socket := Some ((ws_close w)\<lparr> onmessage := HandleStreamMessage \<rparr>),
                   effects := effects s @ [Log Info ActivatingALiS,
                                           Log Error (UnsupportedCompression (at rest 1)), SocketCloseCall] \<rparr>)"
  using assms
  by (simp add: detectProtocol_def at_header socket_close_def logger_def emit_def and_then_def
      set_onmessage_def Let_def)

lemma detectProtocol_old_version:
  assumes "socket s = Some w" and "at rest 0 \<noteq> Some 1"
  shows "detectProtocol_old E (Binary (0x41 # 0x4c # 0x69 # 0x53 # rest)) s =
           Inr (s\<lparr> socket := Some (ws_close w),
                   effects := effects s @ [Log Warn (UnsupportedVersion (at rest 0)), SocketCloseCall] \<rparr>)"
  using assms by (simp add: detectProtocol_old_def at_header socket_close_def logger_def emit_def)

lemma detectProtocol_old_v1:
  assumes "socket s = Some w" and "at rest 0 = Some 1"
  shows "detectProtocol_old E (Binary (0x41 # 0x4c # 0x69 # 0x53 # rest)) s =
           Inr (s\<lparr> socket := Some (w\<lparr> onmessage := HandleStreamMessage \<rparr>),
                   effects := effects s @ [Log Info ActivatingALiS] \<rparr>)"
  using assms by (simp add: detectProtocol_old_def at_header set_onmessage_def logger_def emit_def)

lemma ws_close_OPEN: "readyState w = OPEN \<Longrightarrow> ws_close w = w\<lparr> readyState := CLOSING \<rparr>"
  by (simp add: ws_close_def)

text \<open>
  C3 (amended). The first binary frame starts with the magic \<open>ALiS\<close>; \<open>at rest 0\<close> is
  its version byte and \<open>at rest 1\<close> its compression byte (absent in a short frame). A
  version other than 1 is logged at warn level and the socket is closed, the handler
  staying the protocol detection (the older revision does the same). Version 1 with a
  compression byte other than 0 is logged at error level and the socket is closed, the
  stream handler being bound all the same. In both cases the socket, closing, delivers no
  further message, so no handler runs on it again.
\<close>

theorem alis_header_errors:
  assumes "socket s = Some w" and "readyState w = OPEN"
  shows "(at rest 0 \<noteq> Some 1 \<longrightarrow>
            detectProtocol E (Binary (0x41 # 0x4c # 0x69 # 0x53 # rest)) s =
              Inr (s\<lparr> socket := Some (w\<lparr> readyState := CLOSING \<rparr>),
                      effects := effects s @ [Log Warn (UnsupportedVersion (at rest 0)), SocketCloseCall] \<rparr>)
          \<and> detectProtocol_old E (Binary (0x41 # 0x4c # 0x69 # 0x53 # rest)) s =
              detectProtocol E (Binary (0x41 # 0x4c # 0x69 # 0x53 # rest)) s)
       \<and> (at rest 0 = Some 1 \<and> at rest 1 \<noteq> Some 0 \<longrightarrow>
            detectProtocol E (Binary (0x41 # 0x4c # 0x69 # 0x53 # rest)) s =
              Inr (s\<lparr> socket := Some (w\<lparr> readyState := CLOSING, onmessage := HandleStreamMessage \<rparr>),
                      effects := effects s @ [Log Info ActivatingALiS,
                                              Log Error (UnsupportedCompression (at rest 1)),
                                              SocketCloseCall] \<rparr>))
       \<and> (at rest 0 \<noteq> Some 1 \<or> at rest 1 \<noteq> Some 0 \<longrightarrow>
            (\<forall>d. \<not> enabled (after (detectProtocol E (Binary (0x41 # 0x4c # 0x69 # 0x53 # rest)) s))
                            (SocketMessage d)))"
proof (intro conjI impI allI)
  assume v: "at rest 0 \<noteq> Some 1"
  show "detectProtocol E (Binary (0x41 # 0x4c # 0x69 # 0x53 # rest)) s =
              Inr (s\<lparr> socket := Some (w\<lparr> readyState := CLOSING \<rparr>),
                      effects := effects s @ [Log Warn (UnsupportedVersion (at rest 0)), SocketCloseCall] \<rparr>)"
    using assms v by (simp add: detectProtocol_version ws_close_OPEN)
  show "detectProtocol_old E (Binary (0x41 # 0x4c # 0x69 # 0x53 # rest)) s =
              detectProtocol E (Binary (0x41 # 0x4c # 0x69 # 0x53 # rest)) s"
    using assms v by (simp add: detectProtocol_version detectProtocol_old_version)
next
  assume c: "at rest 0 = Some 1 \<and> at rest 1 \<noteq> Some 0"
  then show "detectProtocol E (Binary (0x41 # 0x4c # 0x69 # 0x53 # rest)) s =
              Inr (s\<lparr> socket := Some (w\<lparr> readyState := CLOSING, onmessage := HandleStreamMessage \<rparr>),
                      effects := effects s @ [Log Info ActivatingALiS,
                                              Log Error (UnsupportedCompression (at rest 1)),
                                              SocketCloseCall] \<rparr>)"
    using assms by (simp add: detectProtocol_compression ws_close_OPEN)
next
  fix d
  assume "at rest 0 \<noteq> Some 1 \<or> at rest 1 \<noteq> Some 0"
  then consider "at rest 0 \<noteq> Some 1" | "at rest 0 = Some 1" "at rest 1 \<noteq> Some 0" by blast
  then show "\<not> enabled (after (detectProtocol E (Binary (0x41 # 0x4c # 0x69 # 0x53 # rest)) s))
                            (SocketMessage d)"
  proof cases
    case 1
    with assms show ?thesis by (simp add: detectProtocol_version ws_close_OPEN after_def)
  next
    case 2
    with assms show ?thesis by (simp add: detectProtocol_compression ws_close_OPEN after_def)
  qed
qed

text \<open>
  C3 as stated fails: a first frame \<open>ALiS\<close> with version byte 2 is logged at warn
  level, and nothing is logged at error level.
\<close>

theorem version_logged_as_warning_counterexample:
  "detectProtocol sample_env (Binary [0x41, 0x4c, 0x69, 0x53, 2, 0]) opened =
     Inr (opened\<lparr> socket := Some \<lparr> readyState = CLOSING, onmessage = DetectProtocol \<rparr>,
                  effects := effects opened @ [Log Warn (UnsupportedVersion (Some 2)), SocketCloseCall] \<rparr>)"
  by (simp add: opened_eq detectProtocol_def at_def socket_close_def logger_def emit_def ws_close_def)

theorem alis_header_errors_witness:
  "socket opened = Some \<lparr> readyState = OPEN, onmessage = DetectProtocol \<rparr>
   \<and> at [2, 0 :: byte] 0 \<noteq> Some 1 \<and> at [1, 1 :: byte] 0 = Some 1 \<and> at [1, 1 :: byte] 1 \<noteq> Some 0
   \<and> effects (after (detectProtocol sample_env (Binary [0x41, 0x4c, 0x69, 0x53, 2, 0]) opened)) =
        effects opened @ [Log Warn (UnsupportedVersion (Some 2)), SocketCloseCall]
   \<and> effects (after (detectProtocol sample_env (Binary [0x41, 0x4c, 0x69, 0x53, 1, 1]) opened)) =
        effects opened @ [Log Info ActivatingALiS, Log Error (UnsupportedCompression (Some 1)), SocketCloseCall]
   \<and> socket (after (detectProtocol sample_env (Binary [0x41, 0x4c, 0x69, 0x53, 1, 1]) opened)) =
        Some \<lparr> readyState = CLOSING, onmessage = HandleStreamMessage \<rparr>
   \<and> \<not> enabled (after (detectProtocol sample_env (Binary [0x41, 0x4c, 0x69, 0x53, 1, 1]) opened))
                 (SocketMessage (Binary [4]))
   \<and> \<not> enabled (after (detectProtocol sample_env (Binary [0x41, 0x4c, 0x69, 0x53, 2, 0]) opened))
                 (SocketMessage (Binary [4]))"
proof -
  have so: "socket opened = Some \<lparr> readyState = OPEN, onmessage = DetectProtocol \<rparr>"
    by (simp add: opened_eq)
  have ro: "readyState \<lparr> readyState = OPEN, onmessage = DetectProtocol \<rparr> = OPEN" by simp
  have a: "at [2, 0 :: byte] 0 \<noteq> Some 1" "at [1, 1 :: byte] 0 = Some 1" "at [1, 1 :: byte] 1 \<noteq> Some 0"
          "at [2, 0 :: byte] 0 = Some 2" "at [1, 1 :: byte] 1 = Some 1"
    by (simp_all add: at_def)
  show ?thesis
    using alis_header_errors [OF so ro, of "[2, 0]" sample_env]
          alis_header_errors [OF so ro, of "[1, 1]" sample_env] a so
    by (simp add: after_def)
qed

subsection \<open>The frames of the binary protocol\<close>

lemma unat_byte_of_nat: "unat (of_nat n :: byte) = n mod 256"
  by (simp add: unat_of_nat)

lemma le16_value: "(n::nat) < 65536 \<Longrightarrow> n mod 256 + 256 * (n div 256 mod 256) = n"
  by simp

lemma le32_value:
  assumes "(n::nat) < 4294967296"
  shows "n mod 256 + 256 * (n div 256 mod 256) + 65536 * (n div 65536 mod 256)
           + 16777216 * (n div 16777216 mod 256) = n"
proof -
  have d1: "n div 65536 = n div 256 div 256" by (simp add: div_mult2_eq [symmetric])
  have d2: "n div 16777216 = n div 65536 div 256" by (simp add: div_mult2_eq [symmetric])
  have a: "n = n mod 256 + 256 * (n div 256)" by simp
  have b: "n div 256 = n div 256 mod 256 + 256 * (n div 65536)" unfolding d1 by simp
  have c: "n div 65536 = n div 65536 mod 256 + 256 * (n div 16777216)" unfolding d2 by simp
  from assms have "n div 16777216 < 256" by simp
  then have d: "n div 16777216 mod 256 = n div 16777216" by simp
  from a b c d show ?thesis by linarith
qed


lemma getUint16_le16:
  "n < 65536 \<Longrightarrow> length pre = off \<Longrightarrow> getUint16 (pre @ le16 n @ post) off = Some n"
  by (simp add: getUint16_def le16_def nth_append unat_byte_of_nat)

lemma getUint32_le32:
  assumes "n < 4294967296" and "length pre = off"
  shows "getUint32 (pre @ le32 n @ post) off = Some n"
proof -
  have "getUint32 (pre @ le32 n @ post) off =
        Some (n mod 256 + 256 * (n div 256 mod 256) + 65536 * (n div 65536 mod 256)
           + 16777216 * (n div 16777216 mod 256))"
    using assms(2) by (simp add: getUint32_def le32_def nth_append unat_byte_of_nat)
  then show ?thesis by (simp only: le32_value [OF assms(1)])
qed

lemma getFloat32_le32:
  "length pre = off \<Longrightarrow> getFloat32 (pre @ le32 (unat w) @ post) off = Some w"
proof -
  assume l: "length pre = off"
  have "unat w < 4294967296" using unsigned_less [of w, where 'a = nat] by simp
  from getUint32_le32 [OF this l] show ?thesis by (simp add: getFloat32_def)
qed


lemma length_le16: "length (le16 n) = 2"
  by (simp add: le16_def)

lemma length_le32: "length (le32 n) = 4"
  by (simp add: le32_def)

lemma getUint8_Cons: "getUint8 (tag # rest) 0 = Some (unat tag)"
  by (simp add: getUint8_def)

lemma new_Uint8Array_exact:
  "length pre = off \<Longrightarrow> new_Uint8Array (pre @ bytes @ post) off (length bytes) = Some bytes"
  by (simp add: new_Uint8Array_def)

lemma reset_frame_fields:
  assumes "cols < 65536" and "rows < 65536" and "length init < 4294967296"
  shows "getUint8 (reset_frame cols rows time init @ extra) 0 = Some 1"
    and "getUint16 (reset_frame cols rows time init @ extra) 1 = Some cols"
    and "getUint16 (reset_frame cols rows time init @ extra) 3 = Some rows"
    and "getFloat32 (reset_frame cols rows time init @ extra) 5 = Some time"
    and "getUint32 (reset_frame cols rows time init @ extra) 9 = Some (length init)"
    and "new_Uint8Array (reset_frame cols rows time init @ extra) 13 (length init) = Some init"
proof -
  show "getUint8 (reset_frame cols rows time init @ extra) 0 = Some 1"
    by (simp add: reset_frame_def getUint8_Cons)
  show "getUint16 (reset_frame cols rows time init @ extra) 1 = Some cols"
    using getUint16_le16 [OF assms(1), of "[0x01]" 1]
    by (simp add: reset_frame_def)
  show "getUint16 (reset_frame cols rows time init @ extra) 3 = Some rows"
    using getUint16_le16 [OF assms(2), of "[0x01] @ le16 cols" 3]
    by (simp add: reset_frame_def length_le16)
  show "getFloat32 (reset_frame cols rows time init @ extra) 5 = Some time"
    using getFloat32_le32 [of "[0x01] @ le16 cols @ le16 rows" 5]
    by (simp add: reset_frame_def length_le16)
  show "getUint32 (reset_frame cols rows time init @ extra) 9 = Some (length init)"
    using getUint32_le32 [OF assms(3), of "[0x01] @ le16 cols @ le16 rows @ le32 (unat time)" 9]
    by (simp add: reset_frame_def length_le16 length_le32)
  show "new_Uint8Array (reset_frame cols rows time init @ extra) 13 (length init) = Some init"
    using new_Uint8Array_exact
            [of "[0x01] @ le16 cols @ le16 rows @ le32 (unat time) @ le32 (length init)" 13 init extra]
    by (simp add: reset_frame_def length_le16 length_le32)
qed

lemma output_frame_fields:
  assumes "length text < 4294967296"
  shows "getUint8 (output_frame time text @ extra) 0 = Some 111"
    and "getFloat32 (output_frame time text @ extra) 1 = Some time"
    and "getUint32 (output_frame time text @ extra) 5 = Some (length text)"
    and "new_Uint8Array (output_frame time text @ extra) 9 (length text) = Some text"
proof -
  show "getUint8 (output_frame time text @ extra) 0 = Some 111"
    by (simp add: output_frame_def getUint8_Cons)
  show "getFloat32 (output_frame time text @ extra) 1 = Some time"
    using getFloat32_le32 [of "[0x6f]" 1] by (simp add: output_frame_def)
  show "getUint32 (output_frame time text @ extra) 5 = Some (length text)"
    using getUint32_le32 [OF assms, of "[0x6f] @ le32 (unat time)" 5]
    by (simp add: output_frame_def length_le32)
  show "new_Uint8Array (output_frame time text @ extra) 9 (length text) = Some text"
    using new_Uint8Array_exact [of "[0x6f] @ le32 (unat time) @ le32 (length text)" 9 "text" extra]
    by (simp add: output_frame_def length_le32)
qed

lemma resize_frame_fields:
  assumes "cols < 65536" and "rows < 65536"
  shows "getUint8 (resize_frame time cols rows @ extra) 0 = Some 114"
    and "getFloat32 (resize_frame time cols rows @ extra) 1 = Some time"
    and "getUint16 (resize_frame time cols rows @ extra) 5 = Some cols"
    and "getUint16 (resize_frame time cols rows @ extra) 7 = Some rows"
proof -
  show "getUint8 (resize_frame time cols rows @ extra) 0 = Some 114"
    by (simp add: resize_frame_def getUint8_Cons)
  show "getFloat32 (resize_frame time cols rows @ extra) 1 = Some time"
    using getFloat32_le32 [of "[0x72]" 1] by (simp add: resize_frame_def)
  show "getUint16 (resize_frame time cols rows @ extra) 5 = Some cols"
    using getUint16_le16 [OF assms(1), of "[0x72] @ le32 (unat time)" 5]
    by (simp add: resize_frame_def length_le32)
  show "getUint16 (resize_frame time cols rows @ extra) 7 = Some rows"
    using getUint16_le16 [OF assms(2), of "[0x72] @ le32 (unat time) @ le16 cols" 7]
    by (simp add: resize_frame_def length_le32 length_le16)
qed

lemma handleStreamMessage_reset:
  assumes "cols < 65536" and "rows < 65536" and "length init < 4294967296"
  shows "handleStreamMessage E (Binary (reset_frame cols rows time init @ extra)) s =
           Inr (handleResetMessage E (JNum (NumInt (int cols))) (JNum (NumInt (int rows)))
                  (JNum (NumF32 time)) (if init = [] then JUndefined else JStr (utf_decode E init)) s)"
  by (simp add: handleStreamMessage_def reset_frame_fields [OF assms] del: One_nat_def)

lemma handleStreamMessage_output:
  assumes "length text < 4294967296" and "buf s \<noteq> None"
  shows "handleStreamMessage E (Binary (output_frame time text @ extra)) s =
           Inr (emit (PushEvent (JArr [JNum (NumF32 time), JStr ''o'', JStr (utf_decode E text)])) s)"
  using assms(2)
  by (auto simp add: handleStreamMessage_def output_frame_fields [OF assms(1)] pushEvent_def
      simp del: One_nat_def)

lemma handleStreamMessage_resize:
  assumes "cols < 65536" and "rows < 65536" and "buf s \<noteq> None"
  shows "handleStreamMessage E (Binary (resize_frame time cols rows @ extra)) s =
           Inr (emit (PushEvent (JArr [JNum (NumF32 time), JStr ''r'',
                                       JStr (decimal cols @ ''x'' @ decimal rows)])) s)"
  using assms(3)
  by (auto simp add: handleStreamMessage_def resize_frame_fields [OF assms(1,2)] pushEvent_def
      cols_x_rows_def simp del: decimal.simps One_nat_def)

lemma handleStreamMessage_offline:
  "handleStreamMessage E (Binary (0x04 # extra)) s = Inr (handleOfflineMessage s)"
  by (simp add: handleStreamMessage_def getUint8_Cons)

lemma unat_byte_eq:
  assumes "n < 256"
  shows "(unat (w :: byte) = n) = (w = of_nat n)"
proof
  assume "unat w = n"
  then have "of_nat (unat w) = (of_nat n :: byte)" by simp
  then show "w = of_nat n" by simp
next
  assume "w = of_nat n"
  with assms show "unat w = n" by (simp add: unat_byte_of_nat)
qed

lemma handleStreamMessage_unknown:
  assumes "tag \<noteq> 0x01" and "tag \<noteq> 0x6f" and "tag \<noteq> 0x72" and "tag \<noteq> 0x04"
  shows "handleStreamMessage E (Binary (tag # extra)) s =
           Inr (s\<lparr> effects := effects s @ [Log Debug (UnknownFrameType (Some tag))] \<rparr>)"
  using assms unat_byte_eq [of 1 tag] unat_byte_eq [of 111 tag] unat_byte_eq [of 114 tag]
    unat_byte_eq [of 4 tag]
  by (simp add: handleStreamMessage_def getUint8_Cons logger_def emit_def at_def)


text \<open>
  C4. On a frame laid out as the table says (whatever bytes follow it), the stream handler
  calls the reset handling with the columns, rows, time and initial text of a reset frame
  (no initial text when its length is 0), pushes \<open>[time, 'o', text]\<close> for an output frame
  and \<open>[time, 'r', '<cols>x<rows>']\<close> for a resize frame, runs the offline handling on tag
  \<open>0x04\<close>, and on any other tag only logs at debug level.
\<close>

theorem stream_frames_decoded:
  assumes "buf s \<noteq> None"
  shows "(cols < 65536 \<and> rows < 65536 \<and> length init < 4294967296 \<longrightarrow>
            handleStreamMessage E (Binary (reset_frame cols rows time init @ extra)) s =
              Inr (handleResetMessage E (JNum (NumInt (int cols))) (JNum (NumInt (int rows)))
                     (JNum (NumF32 time))
                     (if init = [] then JUndefined else JStr (utf_decode E init)) s))
       \<and> (length text < 4294967296 \<longrightarrow>
            handleStreamMessage E (Binary (output_frame time text @ extra)) s =
              Inr (emit (PushEvent (JArr [JNum (NumF32 time), JStr ''o'', JStr (utf_decode E text)])) s))
       \<and> (cols < 65536 \<and> rows < 65536 \<longrightarrow>
            handleStreamMessage E (Binary (resize_frame time cols rows @ extra)) s =
              Inr (emit (PushEvent (JArr [JNum (NumF32 time), JStr ''r'',
                                          JStr (decimal cols @ ''x'' @ decimal rows)])) s))
       \<and> handleStreamMessage E (Binary (0x04 # extra)) s = Inr (handleOfflineMessage s)
       \<and> (tag \<noteq> 0x01 \<and> tag \<noteq> 0x6f \<and> tag \<noteq> 0x72 \<and> tag \<noteq> 0x04 \<longrightarrow>
            handleStreamMessage E (Binary (tag # extra)) s =
              Inr (s\<lparr> effects := effects s @ [Log Debug (UnknownFrameType (Some tag))] \<rparr>))"
  using assms
  by (simp add: handleStreamMessage_reset handleStreamMessage_output handleStreamMessage_resize
      handleStreamMessage_offline handleStreamMessage_unknown del: decimal.simps)

lemma decimal_80_24: "decimal 80 @ CHR ''x'' # decimal 24 = ''80x24''"
  by code_simp

theorem stream_frames_decoded_witness:
  "buf opened \<noteq> None
   \<and> reset_frame 80 24 0x3F800000 [72, 105] = [1, 80, 0, 24, 0, 0, 0, 0x80, 0x3F, 2, 0, 0, 0, 72, 105]
   \<and> handleStreamMessage sample_env (Binary [1, 80, 0, 24, 0, 0, 0, 0x80, 0x3F, 2, 0, 0, 0, 72, 105]) opened =
       Inr (handleResetMessage sample_env (JNum (NumInt 80)) (JNum (NumInt 24))
              (JNum (NumF32 0x3F800000)) (JStr ''Hi'') opened)
   \<and> handleStreamMessage sample_env (Binary [0x6F, 0, 0, 0x80, 0x3F, 2, 0, 0, 0, 72, 105]) opened =
       Inr (emit (PushEvent (JArr [JNum (NumF32 0x3F800000), JStr ''o'', JStr ''Hi''])) opened)
   \<and> handleStreamMessage sample_env (Binary [0x72, 0, 0, 0x80, 0x3F, 80, 0, 24, 0]) opened =
       Inr (emit (PushEvent (JArr [JNum (NumF32 0x3F800000), JStr ''r'', JStr ''80x24''])) opened)
   \<and> handleStreamMessage sample_env (Binary [0x05]) opened =
       Inr (opened\<lparr> effects := effects opened @ [Log Debug (UnknownFrameType (Some 5))] \<rparr>)"
proof -
  have b: "buf opened \<noteq> None" by (simp add: opened_eq)
  have r: "reset_frame 80 24 0x3F800000 [72, 105] = [1, 80, 0, 24, 0, 0, 0, 0x80, 0x3F, 2, 0, 0, 0, 72, 105]"
    by (simp add: reset_frame_def le16_def le32_def)
  have out: "output_frame 0x3F800000 [72, 105] = [0x6F, 0, 0, 0x80, 0x3F, 2, 0, 0, 0, 72, 105]"
    by (simp add: output_frame_def le32_def)
  have rs: "resize_frame 0x3F800000 80 24 = [0x72, 0, 0, 0x80, 0x3F, 80, 0, 24, 0]"
    by (simp add: resize_frame_def le16_def le32_def)
  have d: "utf_decode sample_env [72, 105] = ''Hi''"
    by code_simp
  from stream_frames_decoded [OF b, of 80 24 "[72, 105]" sample_env "0x3F800000" "[]" "[72, 105]" 5]
  show ?thesis
    by (simp add: b r out rs d decimal_80_24 del: decimal.simps)
qed

text \<open>The older revision has no branch for the resize tag: it logs the frame as unknown.\<close>

lemma handleStreamMessage_old_resize:
  "handleStreamMessage_old E (Binary (resize_frame time cols rows @ extra)) s =
     Inr (s\<lparr> effects := effects s @ [Log Debug (UnknownFrameType (Some 0x72))] \<rparr>)"
  by (simp add: handleStreamMessage_old_def resize_frame_def at_def logger_def emit_def)

subsection \<open>A declared length that overruns the frame\<close>

lemma getUint8_at: "getUint8 b 0 = map_option unat (at b 0)"
  by (cases b) (simp_all add: getUint8_def at_def)

lemma at_0_tag: "at b 0 = Some (of_nat n) \<Longrightarrow> n < 256 \<Longrightarrow> getUint8 b 0 = Some n"
  by (simp add: getUint8_at unat_byte_of_nat)

lemma new_Uint8Array_Some: "off + len \<le> length b \<Longrightarrow> new_Uint8Array b off len = Some (take len (drop off b))"
  by (simp add: new_Uint8Array_def)

lemma new_Uint8Array_None: "length b < off + len \<Longrightarrow> new_Uint8Array b off len = None"
  by (simp add: new_Uint8Array_def)

lemma slice_clamped: "length b \<le> off + len \<Longrightarrow> slice b off (off + len) = drop off b"
  by (simp add: slice_def)

lemma slice_within: "slice b off (off + len) = take len (drop off b)"
  by (simp add: slice_def)

lemma output_within:
  assumes "at b 0 = Some 0x6f" and "getFloat32 b 1 = Some time" and "getUint32 b 5 = Some len"
    and "9 + len \<le> length b"
  shows "handleStreamMessage E (Binary b) s =
           pushEvent (JArr [JNum (NumF32 time), JStr ''o'', JStr (utf_decode E (take len (drop 9 b)))]) s"
    and "handleStreamMessage_old E (Binary b) s =
           pushEvent (JArr [JNum (NumF32 time), JStr ''o'', JStr (utf_decode E (take len (drop 9 b)))]) s"
  using assms at_0_tag [of b 111]
  by (simp_all add: handleStreamMessage_def handleStreamMessage_old_def new_Uint8Array_Some
      slice_within del: One_nat_def)

lemma output_overrun:
  assumes "at b 0 = Some 0x6f" and "getFloat32 b 1 = Some time" and "getUint32 b 5 = Some len"
    and "length b < 9 + len"
  shows "handleStreamMessage E (Binary b) s = Inl (RangeError, s)"
    and "handleStreamMessage_old E (Binary b) s =
           pushEvent (JArr [JNum (NumF32 time), JStr ''o'', JStr (utf_decode E (drop 9 b))]) s"
  using assms at_0_tag [of b 111]
  by (simp_all add: handleStreamMessage_def handleStreamMessage_old_def new_Uint8Array_None
      slice_clamped del: One_nat_def)

lemma output_success_only:
  assumes "at b 0 = Some 0x6f" and "handleStreamMessage E (Binary b) s = Inr s'"
  shows "\<exists>len. getUint32 b 5 = Some len \<and> 9 + len \<le> length b"
  using assms at_0_tag [of b 111]
  by (auto simp: handleStreamMessage_def new_Uint8Array_def split: option.splits if_splits
      simp del: One_nat_def)

lemma reset_within:
  assumes "at b 0 = Some 0x01" and "getUint16 b 1 = Some cols" and "getUint16 b 3 = Some rows"
    and "getFloat32 b 5 = Some time" and "getUint32 b 9 = Some len" and "13 + len \<le> length b"
  shows "handleStreamMessage E (Binary b) s =
           Inr (handleResetMessage E (JNum (NumInt (int cols))) (JNum (NumInt (int rows))) (JNum (NumF32 time))
                  (if len > 0 then JStr (utf_decode E (take len (drop 13 b))) else JUndefined) s)"
    and "handleStreamMessage_old E (Binary b) s =
           Inr (handleResetMessage E (JNum (NumInt (int cols))) (JNum (NumInt (int rows))) (JNum (NumF32 time))
                  (if len > 0 then JStr (utf_decode E (take len (drop 13 b))) else JUndefined) s)"
  using assms at_0_tag [of b 1]
  by (simp_all add: handleStreamMessage_def handleStreamMessage_old_def new_Uint8Array_Some
      slice_within del: One_nat_def)

lemma reset_overrun:
  assumes "at b 0 = Some 0x01" and "getUint16 b 1 = Some cols" and "getUint16 b 3 = Some rows"
    and "getFloat32 b 5 = Some time" and "getUint32 b 9 = Some len" and "length b < 13 + len"
  shows "handleStreamMessage E (Binary b) s = Inl (RangeError, s)"
    and "handleStreamMessage_old E (Binary b) s =
           Inr (handleResetMessage E (JNum (NumInt (int cols))) (JNum (NumInt (int rows))) (JNum (NumF32 time))
                  (JStr (utf_decode E (drop 13 b))) s)"
proof -
  from assms(5) have "13 \<le> length b" by (simp add: getUint32_def split: if_splits)
  with assms(6) have pos: "0 < len" by simp
  show "handleStreamMessage E (Binary b) s = Inl (RangeError, s)"
    using assms pos at_0_tag [of b 1]
    by (simp add: handleStreamMessage_def new_Uint8Array_None del: One_nat_def)
  show "handleStreamMessage_old E (Binary b) s =
           Inr (handleResetMessage E (JNum (NumInt (int cols))) (JNum (NumInt (int rows))) (JNum (NumF32 time))
                  (JStr (utf_decode E (drop 13 b))) s)"
    using assms pos
    by (simp add: handleStreamMessage_old_def slice_clamped del: One_nat_def)
qed

lemma reset_success_only:
  assumes "at b 0 = Some 0x01" and "handleStreamMessage E (Binary b) s = Inr s'"
  shows "\<exists>len. getUint32 b 9 = Some len \<and> 13 + len \<le> length b"
proof -
  from assms at_0_tag [of b 1] obtain len where l: "getUint32 b 9 = Some len"
    and ok: "len > 0 \<longrightarrow> new_Uint8Array b 13 len \<noteq> None"
    by (auto simp: handleStreamMessage_def split: option.splits if_splits simp del: One_nat_def)
  from l have "13 \<le> length b" by (simp add: getUint32_def split: if_splits)
  with ok have "13 + len \<le> length b" by (cases "len > 0") (auto simp: new_Uint8Array_def split: if_splits)
  with l show ?thesis by blast
qed


text \<open>
  C10. A frame with tag \<open>0x6f\<close> or \<open>0x01\<close> is handled without an exception only if the
  declared length, added to the offset of the text (9 or 13), stays within the frame. When
  the header can be read and the declared length overruns the frame, the newer revision
  throws a RangeError from \<^verbatim>\<open>new Uint8Array(buffer, off, len)\<close> before anything is pushed
  or reset, and the older revision, which cuts the text with \<^verbatim>\<open>slice\<close>, goes on with the
  bytes that are there. Within the frame both revisions take the same \<open>len\<close> bytes.
\<close>

theorem declared_length_overrun:
  "(at b 0 = Some 0x6f \<longrightarrow>
      (\<forall>s'. handleStreamMessage E (Binary b) s = Inr s' \<longrightarrow>
            (\<exists>len. getUint32 b 5 = Some len \<and> 9 + len \<le> length b))
    \<and> (\<forall>time len. getFloat32 b 1 = Some time \<and> getUint32 b 5 = Some len \<longrightarrow>
          (length b < 9 + len \<longrightarrow>
             handleStreamMessage E (Binary b) s = Inl (RangeError, s)
           \<and> handleStreamMessage_old E (Binary b) s =
               pushEvent (JArr [JNum (NumF32 time), JStr ''o'', JStr (utf_decode E (drop 9 b))]) s)
        \<and> (9 + len \<le> length b \<longrightarrow>
             handleStreamMessage E (Binary b) s =
               pushEvent (JArr [JNum (NumF32 time), JStr ''o'',
                                JStr (utf_decode E (take len (drop 9 b)))]) s
           \<and> handleStreamMessage_old E (Binary b) s = handleStreamMessage E (Binary b) s)))
   \<and> (at b 0 = Some 0x01 \<longrightarrow>
      (\<forall>s'. handleStreamMessage E (Binary b) s = Inr s' \<longrightarrow>
            (\<exists>len. getUint32 b 9 = Some len \<and> 13 + len \<le> length b))
    \<and> (\<forall>cols rows time len.
          getUint16 b 1 = Some cols \<and> getUint16 b 3 = Some rows \<and> getFloat32 b 5 = Some time
          \<and> getUint32 b 9 = Some len \<longrightarrow>
          (length b < 13 + len \<longrightarrow>
             handleStreamMessage E (Binary b) s = Inl (RangeError, s)
           \<and> handleStreamMessage_old E (Binary b) s =
               Inr (handleResetMessage E (JNum (NumInt (int cols))) (JNum (NumInt (int rows)))
                      (JNum (NumF32 time)) (JStr (utf_decode E (drop 13 b))) s))
        \<and> (13 + len \<le> length b \<longrightarrow>
             handleStreamMessage E (Binary b) s =
               Inr (handleResetMessage E (JNum (NumInt (int cols))) (JNum (NumInt (int rows)))
                      (JNum (NumF32 time))
                      (if len > 0 then JStr (utf_decode E (take len (drop 13 b))) else JUndefined) s)
           \<and> handleStreamMessage_old E (Binary b) s = handleStreamMessage E (Binary b) s)))"
proof (intro conjI impI allI)
  fix s'
  assume "at b 0 = Some 0x6f" "handleStreamMessage E (Binary b) s = Inr s'"
  then show "\<exists>len. getUint32 b 5 = Some len \<and> 9 + len \<le> length b"
    by (rule output_success_only)
next
  fix time len
  assume t: "at b 0 = Some 0x6f" and h: "getFloat32 b 1 = Some time \<and> getUint32 b 5 = Some len"
  {
    assume o: "length b < 9 + len"
    from t h o show "handleStreamMessage E (Binary b) s = Inl (RangeError, s)"
      by (simp add: output_overrun)
    from t h o show "handleStreamMessage_old E (Binary b) s =
               pushEvent (JArr [JNum (NumF32 time), JStr ''o'', JStr (utf_decode E (drop 9 b))]) s"
      by (simp add: output_overrun)
  }
  {
    assume w: "9 + len \<le> length b"
    from t h w show "handleStreamMessage E (Binary b) s =
               pushEvent (JArr [JNum (NumF32 time), JStr ''o'',
                                JStr (utf_decode E (take len (drop 9 b)))]) s"
      by (simp add: output_within)
    from t h w show "handleStreamMessage_old E (Binary b) s = handleStreamMessage E (Binary b) s"
      by (simp add: output_within)
  }
next
  fix s'
  assume "at b 0 = Some 0x01" "handleStreamMessage E (Binary b) s = Inr s'"
  then show "\<exists>len. getUint32 b 9 = Some len \<and> 13 + len \<le> length b"
    by (rule reset_success_only)
next
  fix cols rows time len
  assume t: "at b 0 = Some 0x01"
    and h: "getUint16 b 1 = Some cols \<and> getUint16 b 3 = Some rows \<and> getFloat32 b 5 = Some time
            \<and> getUint32 b 9 = Some len"
  {
    assume o: "length b < 13 + len"
    from t h o show "handleStreamMessage E (Binary b) s = Inl (RangeError, s)"
      by (simp add: reset_overrun)
    from t h o show "handleStreamMessage_old E (Binary b) s =
               Inr (handleResetMessage E (JNum (NumInt (int cols))) (JNum (NumInt (int rows)))
                      (JNum (NumF32 time)) (JStr (utf_decode E (drop 13 b))) s)"
      by (simp add: reset_overrun)
  }
  {
    assume w: "13 + len \<le> length b"
    from t h w show "handleStreamMessage E (Binary b) s =
               Inr (handleResetMessage E (JNum (NumInt (int cols))) (JNum (NumInt (int rows)))
                      (JNum (NumF32 time))
                      (if len > 0 then JStr (utf_decode E (take len (drop 13 b))) else JUndefined) s)"
      by (simp add: reset_within)
    from t h w show "handleStreamMessage_old E (Binary b) s = handleStreamMessage E (Binary b) s"
      by (simp add: reset_within)
  }
qed


lemmas getter_defs = at_def getUint8_def getUint16_def getUint32_def getFloat32_def
  new_Uint8Array_def slice_def

lemma decode_Hi: "utf_decode sample_env [72, 105] = ''Hi''"
  by code_simp

theorem declared_length_overrun_witness:
  "getUint32 [0x6F, 0, 0, 0x80, 0x3F, 5, 0, 0, 0, 72, 105] 5 = Some 5
   \<and> length [0x6F, 0, 0, 0x80, 0x3F, 5, 0, 0, 0, 72, 105 :: byte] < 9 + 5
   \<and> handleStreamMessage sample_env (Binary [0x6F, 0, 0, 0x80, 0x3F, 5, 0, 0, 0, 72, 105]) opened =
       Inl (RangeError, opened)
   \<and> handleStreamMessage_old sample_env (Binary [0x6F, 0, 0, 0x80, 0x3F, 5, 0, 0, 0, 72, 105]) opened =
       Inr (emit (PushEvent (JArr [JNum (NumF32 0x3F800000), JStr ''o'', JStr ''Hi''])) opened)
   \<and> getUint32 [0x6F, 0, 0, 0x80, 0x3F, 2, 0, 0, 0, 72, 105] 5 = Some 2
   \<and> handleStreamMessage sample_env (Binary [0x6F, 0, 0, 0x80, 0x3F, 2, 0, 0, 0, 72, 105]) opened =
       Inr (emit (PushEvent (JArr [JNum (NumF32 0x3F800000), JStr ''o'', JStr ''Hi''])) opened)
   \<and> getUint32 [1, 80, 0, 24, 0, 0, 0, 0x80, 0x3F, 5, 0, 0, 0, 72, 105] 9 = Some 5
   \<and> length [1, 80, 0, 24, 0, 0, 0, 0x80, 0x3F, 5, 0, 0, 0, 72, 105 :: byte] < 13 + 5
   \<and> handleStreamMessage sample_env (Binary [1, 80, 0, 24, 0, 0, 0, 0x80, 0x3F, 5, 0, 0, 0, 72, 105]) opened =
       Inl (RangeError, opened)
   \<and> handleStreamMessage_old sample_env (Binary [1, 80, 0, 24, 0, 0, 0, 0x80, 0x3F, 5, 0, 0, 0, 72, 105]) opened =
       Inr (handleResetMessage sample_env (JNum (NumInt 80)) (JNum (NumInt 24))
              (JNum (NumF32 0x3F800000)) (JStr ''Hi'') opened)"
proof -
  have b: "buf opened = Some \<lparr> baseStreamTime = JUndefined, stopped = False \<rparr>"
    by (simp add: opened_eq)
  from declared_length_overrun [of "[0x6F, 0, 0, 0x80, 0x3F, 5, 0, 0, 0, 72, 105]" sample_env opened]
       declared_length_overrun [of "[0x6F, 0, 0, 0x80, 0x3F, 2, 0, 0, 0, 72, 105]" sample_env opened]
       declared_length_overrun [of "[1, 80, 0, 24, 0, 0, 0, 0x80, 0x3F, 5, 0, 0, 0, 72, 105]" sample_env opened]
  show ?thesis
    by (simp add: getter_defs pushEvent_def b decode_Hi)
qed

subsection \<open>Reset handling\<close>

lemma initBuffer_eq:
  "initBuffer E base s =
     s\<lparr> buf := Some \<lparr> baseStreamTime = base, stopped = False \<rparr>,
        effects := effects s @ (case buf s of None \<Rightarrow> [] | Some b \<Rightarrow> [BufStop])
                   @ [GetBuffer (the_bufferTime E) base (minFrameTime E)] \<rparr>"
  by (simp add: initBuffer_def buf_stop_def emit_def Let_def split: option.splits)

lemma handleResetMessage_eq:
  "handleResetMessage E cols rows time init s =
     s\<lparr> buf := Some \<lparr> baseStreamTime = time, stopped = False \<rparr>,
        clock := (if is_number time then Clock time else Clock (clock_initial E)),
        effects := effects s @ [Log Debug (StreamReset cols rows time), SetState Playing None]
                   @ (case buf s of None \<Rightarrow> [] | Some b \<Rightarrow> [BufStop])
                   @ [GetBuffer (the_bufferTime E) time (minFrameTime E), Reset cols rows init] \<rparr>"
  by (simp add: handleResetMessage_def initBuffer_eq logger_def emit_def Let_def)

lemma handleOfflineMessage_eq:
  "handleOfflineMessage s =
     s\<lparr> clock := NullClock, effects := effects s @ [Log Info StreamOffline, SetState Offline None] \<rparr>"
  by (simp add: handleOfflineMessage_def logger_def emit_def Let_def)

lemma field_JObj: "field (JObj kvs) k = (case map_of kvs k of None \<Rightarrow> JUndefined | Some v \<Rightarrow> v)"
  by (simp add: field_def split: option.splits)

text \<open>
  C5. The reset handling, whatever protocol called it: the debug log, then
  \<^verbatim>\<open>setState('playing')\<close>, then the previous Buffer (if there is one) stopped and a new one
  made with the time of the reset as its base, then \<^verbatim>\<open>reset(cols, rows, init)\<close>; after
  that the clock is a fresh Clock, set to the time of the reset when that is a number. So
  the text message \<^verbatim>\<open>{"cols":80,"rows":24,"time":0}\<close> ends with the state
  \<^verbatim>\<open>playing\<close>, a reset to 80 by 24, and \<^verbatim>\<open>getCurrentTime()\<close> returning 0.
\<close>

theorem reset_handling:
  "effects (handleResetMessage E cols rows time init s) =
     effects s @ [Log Debug (StreamReset cols rows time), SetState Playing None]
     @ (case buf s of None \<Rightarrow> [] | Some b \<Rightarrow> [BufStop])
     @ [GetBuffer (the_bufferTime E) time (minFrameTime E), Reset cols rows init]
   \<and> buf (handleResetMessage E cols rows time init s) = Some \<lparr> baseStreamTime = time, stopped = False \<rparr>
   \<and> clock (handleResetMessage E cols rows time init s) =
       (if is_number time then Clock time else Clock (clock_initial E))
   \<and> (is_number time \<longrightarrow> getCurrentTime (handleResetMessage E cols rows time init s) = time)
   \<and> (JSON_parse E msg = Some (JObj [(''cols'', JNum (NumInt 80)), (''rows'', JNum (NumInt 24)),
                                     (''time'', JNum (NumInt 0))]) \<longrightarrow>
        handleJsonMessage E (Text msg) s =
          Inr (handleResetMessage E (JNum (NumInt 80)) (JNum (NumInt 24)) (JNum (NumInt 0)) JUndefined s)
      \<and> getCurrentTime (after (handleJsonMessage E (Text msg) s)) = JNum (NumInt 0)
      \<and> effects (after (handleJsonMessage E (Text msg) s)) =
          effects s @ [Log Debug (StreamReset (JNum (NumInt 80)) (JNum (NumInt 24)) (JNum (NumInt 0))),
                       SetState Playing None]
          @ (case buf s of None \<Rightarrow> [] | Some b \<Rightarrow> [BufStop])
          @ [GetBuffer (the_bufferTime E) (JNum (NumInt 0)) (minFrameTime E),
             Reset (JNum (NumInt 80)) (JNum (NumInt 24)) JUndefined])"
proof -
  have j: "handleJsonMessage E (Text msg) s =
          Inr (handleResetMessage E (JNum (NumInt 80)) (JNum (NumInt 24)) (JNum (NumInt 0)) JUndefined s)"
    if "JSON_parse E msg = Some (JObj [(''cols'', JNum (NumInt 80)), (''rows'', JNum (NumInt 24)),
                                     (''time'', JNum (NumInt 0))])"
    using that by (simp add: handleJsonMessage_def field_JObj nullish_def)
  show ?thesis
    using j by (simp add: handleResetMessage_eq getCurrentTime_def after_def)
qed

theorem reset_handling_witness:
  \<open>is_number (JNum (NumInt 0))
   \<and> JSON_parse sample_env ''{"cols":80,"rows":24,"time":0}'' =
       Some (JObj [(''cols'', JNum (NumInt 80)), (''rows'', JNum (NumInt 24)), (''time'', JNum (NumInt 0))])
   \<and> getCurrentTime (after (handleJsonMessage sample_env (Text ''{"cols":80,"rows":24,"time":0}'') opened))
       = JNum (NumInt 0)
   \<and> effects (after (handleJsonMessage sample_env (Text ''{"cols":80,"rows":24,"time":0}'') opened)) =
       effects opened @ [Log Debug (StreamReset (JNum (NumInt 80)) (JNum (NumInt 24)) (JNum (NumInt 0))),
                         SetState Playing None, BufStop,
                         GetBuffer (JNum (NumF64 0x3FB999999999999A)) (JNum (NumInt 0)) JUndefined,
                         Reset (JNum (NumInt 80)) (JNum (NumInt 24)) JUndefined]
   \<and> map_option getCurrentTime
        (run sample_env [Play, SocketOpen, SocketMessage (Text ''{"cols":80,"rows":24,"time":0}'')]
           websocket_init) = Some (JNum (NumInt 0))\<close>
proof -
  have p: \<open>JSON_parse sample_env ''{"cols":80,"rows":24,"time":0}'' =
       Some (JObj [(''cols'', JNum (NumInt 80)), (''rows'', JNum (NumInt 24)), (''time'', JNum (NumInt 0))])\<close>
    by (simp add: sample_env_def sample_parse_def)
  have b: "buf opened = Some \<lparr> baseStreamTime = JUndefined, stopped = False \<rparr>"
    by (simp add: opened_eq)
  have e: "the_bufferTime sample_env = JNum (NumF64 0x3FB999999999999A)" "minFrameTime sample_env = JUndefined"
    by (simp_all add: sample_env_def the_bufferTime_def)
  have r: \<open>map_option getCurrentTime
        (run sample_env [Play, SocketOpen, SocketMessage (Text ''{"cols":80,"rows":24,"time":0}'')]
           websocket_init) = Some (JNum (NumInt 0))\<close>
    by (simp add: websocket_init_def sample_env_def sample_parse_def run_simps onmessage_call_def
        detectProtocol_def set_onmessage_def and_then_def handleJsonMessage_def field_def nullish_def
        handleResetMessage_def getCurrentTime_def)
  note th = reset_handling [of sample_env "JNum (NumInt 80)" "JNum (NumInt 24)" "JNum (NumInt 0)"
        JUndefined opened \<open>''{"cols":80,"rows":24,"time":0}''\<close>]
  from th p have g:
    \<open>getCurrentTime (after (handleJsonMessage sample_env (Text ''{"cols":80,"rows":24,"time":0}'') opened))
       = JNum (NumInt 0)\<close>
    by blast
  from th p have
    \<open>effects (after (handleJsonMessage sample_env (Text ''{"cols":80,"rows":24,"time":0}'') opened)) =
       effects opened @ [Log Debug (StreamReset (JNum (NumInt 80)) (JNum (NumInt 24)) (JNum (NumInt 0))),
                       SetState Playing None]
          @ (case buf opened of None \<Rightarrow> [] | Some b \<Rightarrow> [BufStop])
          @ [GetBuffer (the_bufferTime sample_env) (JNum (NumInt 0)) (minFrameTime sample_env),
             Reset (JNum (NumInt 80)) (JNum (NumInt 24)) JUndefined]\<close>
    by blast
  then have f:
    \<open>effects (after (handleJsonMessage sample_env (Text ''{"cols":80,"rows":24,"time":0}'') opened)) =
       effects opened @ [Log Debug (StreamReset (JNum (NumInt 80)) (JNum (NumInt 24)) (JNum (NumInt 0))),
                         SetState Playing None, BufStop,
                         GetBuffer (JNum (NumF64 0x3FB999999999999A)) (JNum (NumInt 0)) JUndefined,
                         Reset (JNum (NumInt 80)) (JNum (NumInt 24)) JUndefined]\<close>
    by (simp add: b e)
  have n: "is_number (JNum (NumInt 0))" by simp
  from n p g f r show ?thesis by blast
qed

subsection \<open>The JSON handler\<close>

lemma get_prop_JObj: "get_prop (JObj kvs) k \<noteq> None"
  by (simp split: option.splits)

lemma isArray_JObj: "\<not> isArray (JObj kvs)"
  by simp

text \<open>
  C7. A text message whose JSON value is an array is pushed to the Buffer as it is. An
  object with a \<^verbatim>\<open>cols\<close> or \<^verbatim>\<open>width\<close> that is not undefined resets the stream, with
  \<^verbatim>\<open>cols ?? width\<close>, \<^verbatim>\<open>rows ?? height\<close>, \<^verbatim>\<open>time\<close> and \<^verbatim>\<open>init ?? undefined\<close>. An object
  without them whose \<^verbatim>\<open>status\<close> is the string \<^verbatim>\<open>offline\<close> runs the offline handling. Any
  other object leaves the state as it is: nothing is pushed and nothing is called. The
  older revision does the same with the key \<^verbatim>\<open>state\<close> in place of \<^verbatim>\<open>status\<close>.
\<close>

theorem json_dispatch:
  assumes "JSON_parse E str = Some e"
  shows "(isArray e \<and> buf s \<noteq> None \<longrightarrow>
            handleJsonMessage E (Text str) s = Inr (emit (PushEvent e) s)
          \<and> handleJsonMessage_old E (Text str) s = Inr (emit (PushEvent e) s))
       \<and> (\<forall>kvs. e = JObj kvs \<longrightarrow>
            (field e ''cols'' \<noteq> JUndefined \<or> field e ''width'' \<noteq> JUndefined \<longrightarrow>
               handleJsonMessage E (Text str) s =
                 Inr (handleResetMessage E (nullish (field e ''cols'') (field e ''width''))
                        (nullish (field e ''rows'') (field e ''height'')) (field e ''time'')
                        (nullish (field e ''init'') JUndefined) s)
             \<and> handleJsonMessage_old E (Text str) s = handleJsonMessage E (Text str) s)
          \<and> (field e ''cols'' = JUndefined \<and> field e ''width'' = JUndefined \<longrightarrow>
               handleJsonMessage E (Text str) s =
                 (if field e ''status'' = JStr ''offline'' then Inr (handleOfflineMessage s) else Inr s)
             \<and> handleJsonMessage_old E (Text str) s =
                 (if field e ''state'' = JStr ''offline'' then Inr (handleOfflineMessage s) else Inr s)))"
  using assms
  by (auto simp: handleJsonMessage_def handleJsonMessage_old_def pushEvent_def get_prop_JObj
      simp del: get_prop.simps)

theorem json_dispatch_witness:
  \<open>handleJsonMessage sample_env (Text ''[1,"o","hi"]'') opened =
     Inr (emit (PushEvent (JArr [JNum (NumInt 1), JStr ''o'', JStr ''hi''])) opened)
   \<and> handleJsonMessage sample_env (Text ''{"cols":80,"rows":24,"time":0}'') opened =
       Inr (handleResetMessage sample_env (JNum (NumInt 80)) (JNum (NumInt 24)) (JNum (NumInt 0))
              JUndefined opened)
   \<and> handleJsonMessage sample_env (Text ''{"status":"offline"}'') opened = Inr (handleOfflineMessage opened)
   \<and> handleJsonMessage_old sample_env (Text ''{"status":"offline"}'') opened = Inr opened
   \<and> handleJsonMessage_old sample_env (Text ''{"state":"offline"}'') opened = Inr (handleOfflineMessage opened)
   \<and> handleJsonMessage sample_env (Text ''{"ping":1}'') opened = Inr opened\<close>
proof -
  have p: \<open>JSON_parse sample_env ''[1,"o","hi"]'' = Some (JArr [JNum (NumInt 1), JStr ''o'', JStr ''hi''])\<close>
    \<open>JSON_parse sample_env ''{"cols":80,"rows":24,"time":0}'' =
       Some (JObj [(''cols'', JNum (NumInt 80)), (''rows'', JNum (NumInt 24)), (''time'', JNum (NumInt 0))])\<close>
    \<open>JSON_parse sample_env ''{"status":"offline"}'' = Some (JObj [(''status'', JStr ''offline'')])\<close>
    \<open>JSON_parse sample_env ''{"state":"offline"}'' = Some (JObj [(''state'', JStr ''offline'')])\<close>
    \<open>JSON_parse sample_env ''{"ping":1}'' = Some (JObj [(''ping'', JNum (NumInt 1))])\<close>
    by (simp_all add: sample_env_def sample_parse_def)
  have b: "buf opened \<noteq> None" by (simp add: opened_eq)
  from json_dispatch [OF p(1), of opened] json_dispatch [OF p(2), of opened]
       json_dispatch [OF p(3), of opened] json_dispatch [OF p(4), of opened]
       json_dispatch [OF p(5), of opened] b
  show ?thesis
    by (simp add: field_JObj nullish_def)
qed

subsection \<open>The raw text protocol\<close>














lemma sample_script_sniff:
  \<open>utf_decode sample_env [91, 67, 79, 76, 85, 77, 78, 83, 61, 34, 49, 50, 48, 34, 32, 76, 73, 78, 69, 83,
                          61, 34, 51, 48, 34, 93] = ''[COLUMNS="120" LINES="30"]''\<close>
  \<open>sniffed_size (utf_decode sample_env [91, 67, 79, 76, 85, 77, 78, 83, 61, 34, 49, 50, 48, 34, 32, 76, 73,
                                        78, 69, 83, 61, 34, 51, 48, 34, 93]) = Some (120, 30)\<close>
  by code_simp+


subsection \<open>The current time\<close>

lemma clock_kept_refl: "clock_kept s s"
  by (simp add: clock_kept_def)

lemma clock_kept_trans:
  assumes "clock_kept s s1" and "clock_kept s1 s2"
  shows "clock_kept s s2"
proof -
  from assms(1) obtain n1 where
    n1: "effects s1 = effects s @ n1" "clock s = NullClock \<and> filter is_Reset n1 = [] \<longrightarrow> clock s1 = NullClock"
    unfolding clock_kept_def by blast
  from assms(2) obtain n2 where
    n2: "effects s2 = effects s1 @ n2" "clock s1 = NullClock \<and> filter is_Reset n2 = [] \<longrightarrow> clock s2 = NullClock"
    unfolding clock_kept_def by blast
  have "effects s2 = effects s @ (n1 @ n2)" using n1 n2 by simp
  moreover have "clock s = NullClock \<and> filter is_Reset (n1 @ n2) = [] \<longrightarrow> clock s2 = NullClock"
    using n1 n2 by simp
  ultimately show ?thesis unfolding clock_kept_def by blast
qed

lemma clock_keptI:
  "effects s' = effects s @ new \<Longrightarrow> (clock s' = clock s \<or> clock s' = NullClock \<or> filter is_Reset new \<noteq> [])
   \<Longrightarrow> clock_kept s s'"
  unfolding clock_kept_def by auto

lemma kept_reset: "clock_kept s (handleResetMessage E cols rows time init s)"
  by (rule clock_keptI [where new = "[Log Debug (StreamReset cols rows time), SetState Playing None]
                   @ (case buf s of None \<Rightarrow> [] | Some b \<Rightarrow> [BufStop])
                   @ [GetBuffer (the_bufferTime E) time (minFrameTime E), Reset cols rows init]"])
     (simp_all add: handleResetMessage_eq)

lemma kept_offline: "clock_kept s (handleOfflineMessage s)"
  by (rule clock_keptI [where new = "[Log Info StreamOffline, SetState Offline None]"])
     (simp_all add: handleOfflineMessage_eq)

lemma kept_emit: "clock_kept s (emit e s)"
  by (rule clock_keptI [where new = "[e]"]) (simp_all add: emit_def)

lemma kept_logger: "clock_kept s (logger l m s)"
  by (simp add: logger_def kept_emit)

lemma kept_pushEvent: "clock_kept s (after (pushEvent e s))"
  by (simp add: pushEvent_def after_def kept_emit clock_kept_refl split: option.splits)

lemma kept_pushText: "clock_kept s (after (pushText t s))"
  by (simp add: pushText_def after_def kept_emit clock_kept_refl split: option.splits)

lemma after_simps: "after (Inr s) = s" "after (Inl (e, s)) = s"
  by (simp_all add: after_def)

lemma kept_json: "clock_kept s (after (handleJsonMessage E d s))"
  by (simp add: handleJsonMessage_def after_simps kept_pushEvent kept_reset kept_offline clock_kept_refl
      split: msgdata.splits option.splits)

lemma kept_stream: "clock_kept s (after (handleStreamMessage E d s))"
  by (simp add: handleStreamMessage_def after_simps kept_pushEvent kept_reset kept_offline kept_logger
      clock_kept_refl split: msgdata.splits option.splits)

lemma kept_raw: "clock_kept s (after (handleRawTextMessage E d s))"
  by (simp add: handleRawTextMessage_def after_simps kept_pushText clock_kept_refl
      split: msgdata.splits option.splits)

lemma kept_same: "effects s' = effects s \<Longrightarrow> clock s' = clock s \<Longrightarrow> clock_kept s s'"
  by (rule clock_keptI [where new = "[]"]) simp_all

lemma kept_set_onmessage: "clock_kept s (after (set_onmessage h s))"
  by (simp add: set_onmessage_def after_simps kept_same split: option.splits)

lemma kept_socket_close: "clock_kept s (after (socket_close s))"
proof (cases "socket s")
  case None
  then show ?thesis by (simp add: socket_close_def after_simps clock_kept_refl)
next
  case (Some w)
  have "clock_kept s (s\<lparr> socket := Some (ws_close w) \<rparr>)" by (simp add: kept_same)
  from clock_kept_trans [OF this kept_emit] Some show ?thesis
    by (simp add: socket_close_def after_simps)
qed

lemma kept_and_then:
  assumes "clock_kept s (after r)" and "\<And>s1. clock_kept s1 (after (f s1))"
  shows "clock_kept s (after (and_then r f))"
proof (cases r)
  case (Inl e)
  with assms(1) show ?thesis by (simp add: and_then_def)
next
  case (Inr s1)
  with assms(1) have "clock_kept s s1" by (simp add: after_simps)
  from clock_kept_trans [OF this assms(2)] Inr show ?thesis by (simp add: and_then_def)
qed

lemma kept_detectProtocol: "clock_kept s (after (detectProtocol E d s))"
proof (cases d)
  case (Text str)
  have "clock_kept s (after (set_onmessage HandleJsonMessage (logger Info ActivatingJson s)))"
    by (rule clock_kept_trans [OF kept_logger kept_set_onmessage])
  then have "clock_kept s (after (and_then (set_onmessage HandleJsonMessage (logger Info ActivatingJson s))
                                    (handleJsonMessage E d)))"
    by (rule kept_and_then) (rule kept_json)
  with Text show ?thesis by (simp add: detectProtocol_def)
next
  case (Binary arr)
  show ?thesis
  proof (cases "at arr 0 = Some 0x41 \<and> at arr 1 = Some 0x4c \<and> at arr 2 = Some 0x69 \<and> at arr 3 = Some 0x53")
    case True
    show ?thesis
    proof (cases "at arr 4 = Some 1")
      case v1: True
      let ?s1 = "logger Info ActivatingALiS s"
      have "clock_kept s (after (if at arr 5 = Some 0 then Inr (logger Debug CompressionNone ?s1)
                 else socket_close (logger Error (UnsupportedCompression (at arr 5)) ?s1)))"
      proof (cases "at arr 5 = Some 0")
        case True
        from clock_kept_trans [OF kept_logger kept_logger] True show ?thesis
          by (simp add: after_simps)
      next
        case False
        from clock_kept_trans [OF clock_kept_trans [OF kept_logger kept_logger] kept_socket_close] False
        show ?thesis by simp
      qed
      then have "clock_kept s (after (and_then
                   (if at arr 5 = Some 0 then Inr (logger Debug CompressionNone ?s1)
                    else socket_close (logger Error (UnsupportedCompression (at arr 5)) ?s1))
                   (set_onmessage HandleStreamMessage)))"
        by (rule kept_and_then) (rule kept_set_onmessage)
      with Binary True v1 show ?thesis by (simp add: detectProtocol_def Let_def del: One_nat_def)
    next
      case False
      from clock_kept_trans [OF kept_logger kept_socket_close] Binary True False
      show ?thesis by (simp add: detectProtocol_def del: One_nat_def)
    qed
  next
    case False
    let ?s1 = "logger Info ActivatingRaw s"
    let ?s2 = "case sniffed_size (utf_decode E arr) of
                 None \<Rightarrow> ?s1
               | Some (cols, rows) \<Rightarrow>
                   handleResetMessage E (JNum (NumInt (int cols))) (JNum (NumInt (int rows)))
                     (JNum (NumInt 0)) JUndefined ?s1"
    have "clock_kept ?s1 ?s2"
      by (simp add: clock_kept_refl kept_reset split: option.splits prod.splits)
    from clock_kept_trans [OF clock_kept_trans [OF kept_logger this] kept_set_onmessage]
    have "clock_kept s (after (set_onmessage HandleRawTextMessage ?s2))" .
    then have "clock_kept s (after (and_then (set_onmessage HandleRawTextMessage ?s2)
                                      (handleRawTextMessage E d)))"
      by (rule kept_and_then) (rule kept_raw)
    moreover have "(at arr 0 = Some 0x41 \<and> at arr 1 = Some 0x4c \<and> at arr 2 = Some 0x69
                    \<and> at arr 3 = Some 0x53) = False"
      using False by simp
    then have "detectProtocol E d s = and_then (set_onmessage HandleRawTextMessage ?s2)
                                      (handleRawTextMessage E d)"
      unfolding detectProtocol_def Binary sniffed_size_def Let_def
      by (simp only: msgdata.case if_False)
    ultimately show ?thesis by simp
  qed
qed

lemma kept_initBuffer: "clock_kept s (initBuffer E base s)"
  by (rule clock_keptI [where new = "(case buf s of None \<Rightarrow> [] | Some b \<Rightarrow> [BufStop])
                   @ [GetBuffer (the_bufferTime E) base (minFrameTime E)]"])
     (simp_all add: initBuffer_eq split: option.splits)

lemma kept_onopen: "effects s0 = effects s \<Longrightarrow> clock s0 = clock s \<Longrightarrow> clock_kept s (onopen E s0)"
  by (rule clock_keptI [where new = "[Log Info Opened]
        @ (case buf s0 of None \<Rightarrow> [] | Some b \<Rightarrow> [BufStop])
        @ [GetBuffer (the_bufferTime E) JUndefined (minFrameTime E),
           SetTimeout (next_timer s0) ResetReconnectAttempt 1000]"])
     (simp_all add: onopen_def initBuffer_eq logger_def emit_def setTimeout_def Let_def split: option.splits)

lemma kept_onclose: "effects s0 = effects s \<Longrightarrow> clock s0 = clock s \<Longrightarrow> clock_kept s (onclose E code s0)"
proof (cases "stop s0 \<or> code = 1000 \<or> code = 1005")
  case True
  assume "effects s0 = effects s" "clock s0 = clock s"
  with True show ?thesis
    by (intro clock_keptI [where new = "[Log Info Closed, SetState Stopped (Some ReasonEnded)]"])
       (simp_all add: onclose_clean)
next
  case False
  assume "effects s0 = effects s" "clock s0 = clock s"
  with False show ?thesis
    by (intro clock_keptI [where new = "[ClearTimeout (successfulConnectionTimeout s0),
            Log Info (UncleanClose (the_reconnectDelay E (reconnectAttempt s0))),
            SetState Loading None,
            SetTimeout (next_timer s0) Connect (the_reconnectDelay E (reconnectAttempt s0))]"])
       (simp_all add: onclose_unclean)
qed

lemma kept_stop_driver: "clock_kept s (stop_driver s)"
  by (rule clock_keptI [where new = "(case buf s of None \<Rightarrow> [] | Some b \<Rightarrow> [BufStop])
               @ (case socket s of None \<Rightarrow> [] | Some w \<Rightarrow> [SocketCloseCall])"])
     (simp_all add: stop_driver_effects stop_driver_def buf_stop_def emit_def Let_def
        split: option.splits)

lemma kept_connect: "effects s0 = effects s \<Longrightarrow> clock s0 = clock s \<Longrightarrow> clock_kept s (connect E s0)"
  by (rule clock_keptI [where new = "[NewWebSocket (url E)]"]) (simp_all add: connect_def emit_def)

lemma kept_timer_fires: "clock_kept s (timer_fires E i s)"
  by (simp add: timer_fires_def Let_def kept_same kept_connect
      split: option.splits timer_callback.splits)

lemma kept_fire: "clock_kept s (after (fire E e s))"
proof (cases e)
  case Play
  then show ?thesis by (simp add: after_simps play_def kept_connect)
next
  case Stop
  then show ?thesis by (simp add: after_simps kept_stop_driver)
next
  case SocketOpen
  then show ?thesis
    by (simp add: after_simps kept_onopen set_readyState_def split: option.splits)
next
  case (SocketMessage d)
  then show ?thesis
    by (simp add: onmessage_call_def after_simps clock_kept_refl kept_detectProtocol kept_json
        kept_stream kept_raw split: option.splits handler.splits)
next
  case (SocketClose code)
  then show ?thesis
    by (simp add: after_simps kept_onclose set_readyState_def split: option.splits)
next
  case (Timeout i)
  then show ?thesis by (simp add: after_simps kept_timer_fires)
next
  case (BufferTime t)
  have "clock_kept s (s\<lparr> clock := setTime t (clock s) \<rparr>)"
    unfolding clock_kept_def by (intro exI [of _ "[]"]) simp
  with BufferTime show ?thesis by (simp add: after_simps)
qed

lemma kept_run: "run E es s = Some s' \<Longrightarrow> clock_kept s s'"
proof (induction es arbitrary: s)
  case Nil
  then show ?case by (simp add: clock_kept_refl)
next
  case (Cons e es)
  from Cons.prems obtain s1 where s1: "step E e s = Some s1" and r: "run E es s1 = Some s'"
    by (auto split: option.splits)
  from s1 have "s1 = after (fire E e s)" by (simp add: step_def split: if_splits)
  with kept_fire [of s E e] have "clock_kept s s1" by simp
  from clock_kept_trans [OF this Cons.IH [OF r]] show ?case .
qed

text \<open>
  C8. \<^verbatim>\<open>getCurrentTime()\<close> returns the time of the active Clock, and undefined when there
  is none. There is none when the driver is made, and none after the offline handling
  (which calls \<^verbatim>\<open>setState('offline')\<close>); and from a state without an active Clock, whatever
  events follow, it stays undefined as long as no \<^verbatim>\<open>reset\<close> call has been added to the
  trace, the time callback of the Buffer included.
\<close>

theorem getCurrentTime_absent:
  "getCurrentTime s = (case clock s of NullClock \<Rightarrow> JUndefined | Clock t \<Rightarrow> t)
   \<and> getCurrentTime websocket_init = JUndefined
   \<and> getCurrentTime (handleOfflineMessage s) = JUndefined
   \<and> effects (handleOfflineMessage s) = effects s @ [Log Info StreamOffline, SetState Offline None]
   \<and> (clock s = NullClock \<and> run E es s = Some s'
        \<and> filter is_Reset (effects s') = filter is_Reset (effects s) \<longrightarrow>
        getCurrentTime s' = JUndefined)"
proof (intro conjI impI)
  show "getCurrentTime s = (case clock s of NullClock \<Rightarrow> JUndefined | Clock t \<Rightarrow> t)"
    by (cases "clock s") (simp_all add: getCurrentTime_def)
  show "getCurrentTime websocket_init = JUndefined"
    by (simp add: getCurrentTime_def websocket_init_def)
  show "getCurrentTime (handleOfflineMessage s) = JUndefined"
    by (simp add: getCurrentTime_def handleOfflineMessage_eq)
  show "effects (handleOfflineMessage s) = effects s @ [Log Info StreamOffline, SetState Offline None]"
    by (simp add: handleOfflineMessage_eq)
next
  assume a: "clock s = NullClock \<and> run E es s = Some s'
        \<and> filter is_Reset (effects s') = filter is_Reset (effects s)"
  then have "run E es s = Some s'" by simp
  then have "clock_kept s s'" by (rule kept_run)
  then obtain new where n: "effects s' = effects s @ new"
      "clock s = NullClock \<and> filter is_Reset new = [] \<longrightarrow> clock s' = NullClock"
    unfolding clock_kept_def by blast
  from a n(1) have "filter is_Reset new = []" by simp
  with a n(2) have "clock s' = NullClock" by simp
  then show "getCurrentTime s' = JUndefined" by (simp add: getCurrentTime_def)
qed

theorem getCurrentTime_absent_witness:
  \<open>map_option getCurrentTime
     (run sample_env [Play, SocketOpen, SocketMessage (Text ''{"ping":1}''), BufferTime (JNum (NumInt 3))]
        websocket_init) = Some JUndefined
   \<and> getCurrentTime (handleResetMessage sample_env (JNum (NumInt 80)) (JNum (NumInt 24)) (JNum (NumInt 0))
                        JUndefined opened) = JNum (NumInt 0)
   \<and> map_option getCurrentTime
       (run sample_env [BufferTime (JNum (NumInt 5))]
          (handleOfflineMessage
             (handleResetMessage sample_env (JNum (NumInt 80)) (JNum (NumInt 24)) (JNum (NumInt 0))
                JUndefined opened))) = Some JUndefined\<close>
proof -
  let ?es = \<open>[Play, SocketOpen, SocketMessage (Text ''{"ping":1}''), BufferTime (JNum (NumInt 3))]\<close>
  let ?p = "handleResetMessage sample_env (JNum (NumInt 80)) (JNum (NumInt 24)) (JNum (NumInt 0))
              JUndefined opened"
  obtain s1 where r1: "run sample_env ?es websocket_init = Some s1"
    and f1: "filter is_Reset (effects s1) = filter is_Reset (effects websocket_init)"
    by (simp add: websocket_init_def sample_env_def sample_parse_def run_simps onmessage_call_def
        detectProtocol_def set_onmessage_def and_then_def handleJsonMessage_def field_def)
  have c1: "clock websocket_init = NullClock" by (simp add: websocket_init_def)
  from getCurrentTime_absent [of websocket_init sample_env ?es s1] c1 r1 f1
  have g1: "getCurrentTime s1 = JUndefined" by blast
  obtain s2 where r2: "run sample_env [BufferTime (JNum (NumInt 5))] (handleOfflineMessage ?p) = Some s2"
    and f2: "filter is_Reset (effects s2) = filter is_Reset (effects (handleOfflineMessage ?p))"
    by (simp add: step_def after_simps handleOfflineMessage_eq handleResetMessage_eq)
  have c2: "clock (handleOfflineMessage ?p) = NullClock" by (simp add: handleOfflineMessage_eq)
  from getCurrentTime_absent [of "handleOfflineMessage ?p" sample_env "[BufferTime (JNum (NumInt 5))]" s2]
       c2 r2 f2
  have g2: "getCurrentTime s2 = JUndefined" by blast
  have g3: "getCurrentTime ?p = JNum (NumInt 0)"
    by (simp add: getCurrentTime_def handleResetMessage_eq)
  from r1 g1 r2 g2 g3 show ?thesis by simp
qed

subsection \<open>Socket and Buffer when a message arrives\<close>

lemma buf_kept_refl: "buf_kept s s"
  by (simp add: buf_kept_def)

lemma buf_kept_trans: "buf_kept s s1 \<Longrightarrow> buf_kept s1 s2 \<Longrightarrow> buf_kept s s2"
  by (simp add: buf_kept_def)

lemma buf_kept_reset: "buf_kept s (handleResetMessage E cols rows time init s)"
  by (simp add: buf_kept_def handleResetMessage_eq)

lemma buf_kept_offline: "buf_kept s (handleOfflineMessage s)"
  by (simp add: buf_kept_def handleOfflineMessage_eq)

lemma buf_kept_logger: "buf_kept s (logger l m s)"
  by (simp add: buf_kept_def logger_def emit_def)

lemma buf_kept_pushEvent: "buf_kept s (after (pushEvent e s))"
  by (simp add: buf_kept_def pushEvent_def after_simps emit_def split: option.splits)

lemma buf_kept_pushText: "buf_kept s (after (pushText t s))"
  by (simp add: buf_kept_def pushText_def after_simps emit_def split: option.splits)

lemma buf_kept_json: "buf_kept s (after (handleJsonMessage E d s))"
  by (simp add: handleJsonMessage_def after_simps buf_kept_pushEvent buf_kept_reset buf_kept_offline
      buf_kept_refl split: msgdata.splits option.splits)

lemma buf_kept_stream: "buf_kept s (after (handleStreamMessage E d s))"
  by (simp add: handleStreamMessage_def after_simps buf_kept_pushEvent buf_kept_reset buf_kept_offline
      buf_kept_logger buf_kept_refl split: msgdata.splits option.splits)

lemma buf_kept_raw: "buf_kept s (after (handleRawTextMessage E d s))"
  by (simp add: handleRawTextMessage_def after_simps buf_kept_pushText buf_kept_refl
      split: msgdata.splits option.splits)

lemma buf_kept_set_onmessage: "buf_kept s (after (set_onmessage h s))"
  by (simp add: buf_kept_def set_onmessage_def after_simps split: option.splits)

lemma buf_kept_socket_close: "buf_kept s (after (socket_close s))"
  by (simp add: buf_kept_def socket_close_def after_simps emit_def split: option.splits)

lemma buf_kept_and_then:
  assumes "buf_kept s (after r)" and "\<And>s1. buf_kept s1 (after (f s1))"
  shows "buf_kept s (after (and_then r f))"
proof (cases r)
  case (Inl e)
  with assms(1) show ?thesis by (simp add: and_then_def)
next
  case (Inr s1)
  with assms(1) have "buf_kept s s1" by (simp add: after_simps)
  from buf_kept_trans [OF this assms(2)] Inr show ?thesis by (simp add: and_then_def)
qed

lemma buf_kept_detectProtocol: "buf_kept s (after (detectProtocol E d s))"
proof (cases d)
  case (Text str)
  have "buf_kept s (after (set_onmessage HandleJsonMessage (logger Info ActivatingJson s)))"
    by (rule buf_kept_trans [OF buf_kept_logger buf_kept_set_onmessage])
  then have "buf_kept s (after (and_then (set_onmessage HandleJsonMessage (logger Info ActivatingJson s))
                                    (handleJsonMessage E d)))"
    by (rule buf_kept_and_then) (rule buf_kept_json)
  with Text show ?thesis by (simp add: detectProtocol_def)
next
  case (Binary arr)
  show ?thesis
  proof (cases "at arr 0 = Some 0x41 \<and> at arr 1 = Some 0x4c \<and> at arr 2 = Some 0x69 \<and> at arr 3 = Some 0x53")
    case True
    show ?thesis
    proof (cases "at arr 4 = Some 1")
      case v1: True
      let ?s1 = "logger Info ActivatingALiS s"
      have "buf_kept s (after (if at arr 5 = Some 0 then Inr (logger Debug CompressionNone ?s1)
                 else socket_close (logger Error (UnsupportedCompression (at arr 5)) ?s1)))"
      proof (cases "at arr 5 = Some 0")
        case True
        from buf_kept_trans [OF buf_kept_logger buf_kept_logger] True show ?thesis
          by (simp add: after_simps)
      next
        case False
        from buf_kept_trans [OF buf_kept_trans [OF buf_kept_logger buf_kept_logger] buf_kept_socket_close]
          False
        show ?thesis by simp
      qed
      then have "buf_kept s (after (and_then
                   (if at arr 5 = Some 0 then Inr (logger Debug CompressionNone ?s1)
                    else socket_close (logger Error (UnsupportedCompression (at arr 5)) ?s1))
                   (set_onmessage HandleStreamMessage)))"
        by (rule buf_kept_and_then) (rule buf_kept_set_onmessage)
      with Binary True v1 show ?thesis by (simp add: detectProtocol_def Let_def del: One_nat_def)
    next
      case False
      from buf_kept_trans [OF buf_kept_logger buf_kept_socket_close] Binary True False
      show ?thesis by (simp add: detectProtocol_def del: One_nat_def)
    qed
  next
    case False
    let ?s1 = "logger Info ActivatingRaw s"
    let ?s2 = "case sniffed_size (utf_decode E arr) of
                 None \<Rightarrow> ?s1
               | Some (cols, rows) \<Rightarrow>
                   handleResetMessage E (JNum (NumInt (int cols))) (JNum (NumInt (int rows)))
                     (JNum (NumInt 0)) JUndefined ?s1"
    have "buf_kept ?s1 ?s2"
      by (simp add: buf_kept_refl buf_kept_reset split: option.splits prod.splits)
    from buf_kept_trans [OF buf_kept_trans [OF buf_kept_logger this] buf_kept_set_onmessage]
    have "buf_kept s (after (set_onmessage HandleRawTextMessage ?s2))" .
    then have "buf_kept s (after (and_then (set_onmessage HandleRawTextMessage ?s2)
                                      (handleRawTextMessage E d)))"
      by (rule buf_kept_and_then) (rule buf_kept_raw)
    moreover have "(at arr 0 = Some 0x41 \<and> at arr 1 = Some 0x4c \<and> at arr 2 = Some 0x69
                    \<and> at arr 3 = Some 0x53) = False"
      using False by simp
    then have "detectProtocol E d s = and_then (set_onmessage HandleRawTextMessage ?s2)
                                      (handleRawTextMessage E d)"
      unfolding detectProtocol_def Binary sniffed_size_def Let_def
      by (simp only: msgdata.case if_False)
    ultimately show ?thesis by simp
  qed
qed

lemma buf_kept_onmessage: "buf_kept s (after (onmessage_call E d s))"
  by (simp add: onmessage_call_def after_simps buf_kept_refl buf_kept_detectProtocol buf_kept_json
      buf_kept_stream buf_kept_raw split: option.splits handler.splits)

lemma buffer_when_open_step:
  assumes "buffer_when_open s" and "step E e s = Some s'"
  shows "buffer_when_open s'"
proof -
  from assms(2) have en: "enabled s e" and s': "s' = after (fire E e s)"
    by (auto simp: step_def split: if_splits)
  show ?thesis
  proof (cases e)
    case Play
    with s' show ?thesis by (simp add: after_simps play_def connect_def emit_def buffer_when_open_def)
  next
    case Stop
    with s' assms(1) show ?thesis
      by (auto simp: after_simps stop_driver_fields buffer_when_open_def ws_close_def
          split: option.splits if_splits)
  next
    case SocketOpen
    with s' show ?thesis
      by (simp add: after_simps onopen_def initBuffer_eq logger_def emit_def setTimeout_def
          set_readyState_def buffer_when_open_def Let_def split: option.splits)
  next
    case (SocketMessage d)
    with en assms(1) have "buf s \<noteq> None"
      by (auto simp: buffer_when_open_def split: option.splits)
    with buf_kept_onmessage [of s E d] SocketMessage s' have "buf s' \<noteq> None"
      by (simp add: buf_kept_def)
    then show ?thesis by (simp add: buffer_when_open_def split: option.splits)
  next
    case (SocketClose code)
    from en SocketClose obtain w where w: "socket s = Some w" by (auto split: option.splits)
    have "socket (onclose E code (set_readyState CLOSED s)) = Some (w\<lparr> readyState := CLOSED \<rparr>)"
      by (cases "stop s \<or> code = 1000 \<or> code = 1005")
         (simp_all add: onclose_clean onclose_unclean set_readyState_def w)
    with SocketClose s' show ?thesis by (simp add: after_simps buffer_when_open_def)
  next
    case (Timeout i)
    with s' assms(1) show ?thesis
      by (auto simp: after_simps timer_fires_def connect_def emit_def buffer_when_open_def Let_def
          split: option.splits timer_callback.splits)
  next
    case (BufferTime t)
    with s' assms(1) show ?thesis
      by (simp add: after_simps buffer_when_open_def split: option.splits)
  qed
qed

lemma buffer_when_open_run: "buffer_when_open s \<Longrightarrow> run E es s = Some s' \<Longrightarrow> buffer_when_open s'"
proof (induction es arbitrary: s)
  case Nil
  then show ?case by simp
next
  case (Cons e es)
  from Cons.prems(2) obtain s1 where s1: "step E e s = Some s1" and r: "run E es s1 = Some s'"
    by (auto split: option.splits)
  from Cons.IH [OF buffer_when_open_step [OF Cons.prems(1) s1] r] show ?case .
qed

text \<open>
  Whenever a message is delivered in an execution of the driver, the socket is open and a
  Buffer exists: the handlers are never called without either.
\<close>

lemma message_finds_socket_and_buffer:
  assumes "run E es websocket_init = Some s" and "enabled s (SocketMessage d)"
  shows "\<exists>w b. socket s = Some w \<and> readyState w = OPEN \<and> buf s = Some b"
proof -
  have "buffer_when_open websocket_init" by (simp add: buffer_when_open_def websocket_init_def)
  from buffer_when_open_run [OF this assms(1)] assms(2) show ?thesis
    by (auto simp: buffer_when_open_def split: option.splits)
qed

end
